theory Spec2Isabelle
  imports Main "HOL-Library.AList"
begin

section \<open>Python values and exceptions\<close>

text \<open>
  The program is \<^verbatim>\<open>athena_query_lambda.py\<close>: a Lambda handler that picks a predefined SQL
  template by tool name, fills it with the event's parameters, runs it on Athena and
  wraps the outcome. Exceptions are values: every \<^verbatim>\<open>raise\<close> that a handler of the source
  catches is a constructor below, and \<open>str_exc\<close> is Python's \<^verbatim>\<open>str(e)\<close>.
\<close>

datatype py_error =
    KeyError string
  | ValueError string
  | IndexError string
  | AttributeError string
  | TypeError string
  | ClientError string
  | Unmodelled_Field string

text \<open>
  \<^verbatim>\<open>str(KeyError(k))\<close> is the \<^verbatim>\<open>repr\<close> of the key; \<open>py_repr\<close> is \<^verbatim>\<open>repr\<close> on strings without
  quotes, backslashes or control characters (every placeholder of the store is one): the
  string between single quotes. \<open>ClientError\<close> stands for any exception of the Athena
  client, carrying its text. \<open>Unmodelled_Field\<close> marks a replacement field outside the
  grammar modelled below; no template of the store has one.
\<close>

definition py_repr :: "string \<Rightarrow> string" where
  "py_repr s = [CHR 0x27] @ s @ [CHR 0x27]"

fun str_exc :: "py_error \<Rightarrow> string" where
  "str_exc (KeyError k) = py_repr k"
| "str_exc (ValueError m) = m"
| "str_exc (IndexError m) = m"
| "str_exc (AttributeError m) = m"
| "str_exc (TypeError m) = m"
| "str_exc (ClientError m) = m"
| "str_exc (Unmodelled_Field f) = f"

section \<open>The template store\<close>

definition get_sales_summary_template :: string where
  "get_sales_summary_template = concat
    [''\<newline>'',
     ''        SELECT \<newline>'',
     ''            DATE_TRUNC('month', order_date) as month,\<newline>'',
     ''            SUM(total_amount) as total_sales,\<newline>'',
     ''            COUNT(DISTINCT order_id) as order_count\<newline>'',
     ''        FROM sales_table\<newline>'',
     ''        WHERE order_date >= DATE_ADD('month', -6, CURRENT_DATE)\<newline>'',
     ''        GROUP BY DATE_TRUNC('month', order_date)\<newline>'',
     ''        ORDER BY month DESC\<newline>'',
     ''    '']"

definition get_top_customers_template :: string where
  "get_top_customers_template = concat
    [''\<newline>'',
     ''        SELECT \<newline>'',
     ''            customer_id,\<newline>'',
     ''            customer_name,\<newline>'',
     ''            SUM(total_amount) as lifetime_value,\<newline>'',
     ''            COUNT(order_id) as order_count\<newline>'',
     ''        FROM sales_table\<newline>'',
     ''        WHERE order_date >= DATE_ADD('year', -1, CURRENT_DATE)\<newline>'',
     ''        GROUP BY customer_id, customer_name\<newline>'',
     ''        ORDER BY lifetime_value DESC\<newline>'',
     ''        LIMIT {limit}\<newline>'',
     ''    '']"

definition get_product_performance_template :: string where
  "get_product_performance_template = concat
    [''\<newline>'',
     ''        SELECT \<newline>'',
     ''            product_id,\<newline>'',
     ''            product_name,\<newline>'',
     ''            SUM(quantity) as units_sold,\<newline>'',
     ''            SUM(total_amount) as revenue,\<newline>'',
     ''            AVG(unit_price) as avg_price\<newline>'',
     ''        FROM sales_table\<newline>'',
     ''        WHERE order_date >= DATE_ADD('month', -{months}, CURRENT_DATE)\<newline>'',
     ''        GROUP BY product_id, product_name\<newline>'',
     ''        ORDER BY revenue DESC\<newline>'',
     ''        LIMIT {limit}\<newline>'',
     ''    '']"

definition get_regional_breakdown_template :: string where
  "get_regional_breakdown_template = concat
    [''\<newline>'',
     ''        SELECT \<newline>'',
     ''            region,\<newline>'',
     ''            COUNT(DISTINCT customer_id) as unique_customers,\<newline>'',
     ''            SUM(total_amount) as total_revenue,\<newline>'',
     ''            AVG(total_amount) as avg_order_value\<newline>'',
     ''        FROM sales_table\<newline>'',
     ''        WHERE order_date >= DATE_ADD('month', -{months}, CURRENT_DATE)\<newline>'',
     ''        GROUP BY region\<newline>'',
     ''        ORDER BY total_revenue DESC\<newline>'',
     ''    '']"

definition get_inventory_status_template :: string where
  "get_inventory_status_template = concat
    [''\<newline>'',
     ''        SELECT \<newline>'',
     ''            product_id,\<newline>'',
     ''            product_name,\<newline>'',
     ''            current_stock,\<newline>'',
     ''            reorder_level,\<newline>'',
     ''            CASE \<newline>'',
     ''                WHEN current_stock <= reorder_level THEN 'LOW'\<newline>'',
     ''                WHEN current_stock <= reorder_level * 1.5 THEN 'MEDIUM'\<newline>'',
     ''                ELSE 'GOOD'\<newline>'',
     ''            END as stock_status\<newline>'',
     ''        FROM inventory_table\<newline>'',
     ''        WHERE warehouse_id = '{warehouse_id}'\<newline>'',
     ''        ORDER BY stock_status, current_stock ASC\<newline>'',
     ''    '']"

definition get_order_details_template :: string where
  "get_order_details_template = concat
    [''\<newline>'',
     ''        SELECT \<newline>'',
     ''            o.order_id,\<newline>'',
     ''            o.order_date,\<newline>'',
     ''            o.customer_name,\<newline>'',
     ''            o.total_amount,\<newline>'',
     ''            o.status,\<newline>'',
     ''            oi.product_name,\<newline>'',
     ''            oi.quantity,\<newline>'',
     ''            oi.unit_price\<newline>'',
     ''        FROM orders_table o\<newline>'',
     ''        JOIN order_items_table oi ON o.order_id = oi.order_id\<newline>'',
     ''        WHERE o.order_id = '{order_id}'\<newline>'',
     ''    '']"

text \<open>The dictionary \<^verbatim>\<open>PREDEFINED_QUERIES\<close>, in the order of the source.\<close>

definition PREDEFINED_QUERIES :: "(string \<times> string) list" where
  "PREDEFINED_QUERIES =
    [(''get_sales_summary'', get_sales_summary_template),
     (''get_top_customers'', get_top_customers_template),
     (''get_product_performance'', get_product_performance_template),
     (''get_regional_breakdown'', get_regional_breakdown_template),
     (''get_inventory_status'', get_inventory_status_template),
     (''get_order_details'', get_order_details_template)]"

section \<open>Parameter binding: \<^verbatim>\<open>query_template.format(**event)\<close>\<close>

text \<open>
  The event is a mapping from parameter names to the text that \<^verbatim>\<open>format\<close> inserts for them.
  \<^verbatim>\<open>str.format\<close> walks the template from left to right, one literal run and one
  replacement field at a time, and raises at the first thing that goes wrong: a syntax
  error where it stands, a \<^verbatim>\<open>KeyError\<close> for the first field whose name the mapping lacks.
  \<open>markup\<close> is that walk: the pieces read before the first syntax error, and that error.
  \<open>{{\<close> and \<open>}}\<close> are escaped braces. A field is modelled when its text is a plain keyword
  name: not empty, not a number (a positional index), without conversion (\<open>!\<close>),
  format specification (\<open>:\<close>), attribute or index access, or nested braces.
\<close>

type_synonym event = "string \<rightharpoonup> string"

datatype piece = Lit char | Field string

fun split_field :: "string \<Rightarrow> (string \<times> string) option" where
  "split_field [] = None"
| "split_field (c # cs) =
     (if c = CHR ''}'' then Some ([], cs)
      else (case split_field cs of None \<Rightarrow> None | Some (f, r) \<Rightarrow> Some (c # f, r)))"

definition plain_field :: "string \<Rightarrow> bool" where
  "plain_field f \<longleftrightarrow>
     f \<noteq> [] \<and> \<not> list_all (\<lambda>c. c \<in> set ''0123456789'') f \<and>
     list_all (\<lambda>c. c \<notin> set ''{[.!:'') f"

lemma split_field_shorter: "split_field cs = Some (f, r) \<Longrightarrow> length r < Suc (length cs)"
  by (induction cs arbitrary: f r) (auto split: if_splits option.splits)

function markup :: "string \<Rightarrow> piece list \<times> py_error option" where
  "markup [] = ([], None)"
| "markup (c # cs) =
     (if c = CHR ''{'' then
        (case cs of
           [] \<Rightarrow> ([], Some (ValueError ''Single '{' encountered in format string''))
         | d # ds \<Rightarrow>
             if d = CHR ''{'' then (case markup ds of (ps, e) \<Rightarrow> (Lit (CHR ''{'') # ps, e))
             else (case split_field (d # ds) of
                     None \<Rightarrow> ([], Some (ValueError ''expected '}' before end of string''))
                   | Some (f, rest) \<Rightarrow>
                       if plain_field f
                       then (case markup rest of (ps, e) \<Rightarrow> (Field f # ps, e))
                       else ([], Some (Unmodelled_Field f))))
      else if c = CHR ''}'' then
        (case cs of
           [] \<Rightarrow> ([], Some (ValueError ''Single '}' encountered in format string''))
         | d # ds \<Rightarrow>
             if d = CHR ''}'' then (case markup ds of (ps, e) \<Rightarrow> (Lit (CHR ''}'') # ps, e))
             else ([], Some (ValueError ''Single '}' encountered in format string'')))
      else (case markup cs of (ps, e) \<Rightarrow> (Lit c # ps, e)))"
  by pat_completeness auto
termination
proof (relation "measure length")
  show "wf (measure length)" by simp
next
  fix c cs d ds f rest x
  assume "split_field (d # ds) = Some x" "(f, rest) = x"
  then have "length rest < Suc (length (d # ds))"
    using split_field_shorter [of "d # ds" f rest] by simp
  then show "(rest, c # cs) \<in> measure length" if "cs = d # ds"
    using that by simp
qed auto

fun render :: "piece list \<Rightarrow> py_error option \<Rightarrow> event \<Rightarrow> py_error + string" where
  "render [] None kw = Inr []"
| "render [] (Some e) kw = Inl e"
| "render (Lit c # ps) err kw =
     (case render ps err kw of Inl e \<Rightarrow> Inl e | Inr s \<Rightarrow> Inr (c # s))"
| "render (Field n # ps) err kw =
     (case kw n of
        None \<Rightarrow> Inl (KeyError n)
      | Some v \<Rightarrow> (case render ps err kw of Inl e \<Rightarrow> Inl e | Inr s \<Rightarrow> Inr (v @ s)))"

definition format_kw :: "string \<Rightarrow> event \<Rightarrow> py_error + string" where
  "format_kw t kw = (case markup t of (ps, err) \<Rightarrow> render ps err kw)"

text \<open>The placeholders of a template, in template order (with repetitions).\<close>

fun fields_of :: "piece list \<Rightarrow> string list" where
  "fields_of [] = []"
| "fields_of (Lit c # ps) = fields_of ps"
| "fields_of (Field n # ps) = n # fields_of ps"

definition placeholders :: "string \<Rightarrow> string list" where
  "placeholders t = fields_of (fst (markup t))"

section \<open>The Athena service and the calls made to it\<close>

text \<open>
  \<^verbatim>\<open>athena_client\<close> is the external service. Its three operations are parameters of the
  model; \<open>Inl\<close> is the exception raised while obtaining the value the source reads from
  the response. The service has state: \<open>get_query_execution svc n\<close> is its answer to the
  status request made after \<open>n\<close> earlier ones. Every call, and every \<^verbatim>\<open>time.sleep\<close>, is
  recorded in the list of calls that the functions below return beside their result.
\<close>

record execution_status =
  State :: string
  StateChangeReason :: "string option"

text \<open>
  A result page: the \<^verbatim>\<open>Label\<close> of each \<^verbatim>\<open>ColumnInfo\<close> entry, and the \<^verbatim>\<open>Data\<close> of each row, a
  list of cells whose \<^verbatim>\<open>VarCharValue\<close> may be absent.
\<close>

record result_set =
  ColumnInfo :: "string list"
  Rows :: "string option list list"

record athena =
  start_query_execution :: "string \<Rightarrow> py_error + string"
  get_query_execution :: "nat \<Rightarrow> string \<Rightarrow> py_error + execution_status"
  get_query_results :: "string \<Rightarrow> nat \<Rightarrow> py_error + result_set"

datatype call =
    Start_Query string
  | Get_Execution string
  | Get_Results string nat
  | Sleep nat

section \<open>Result materialization\<close>

text \<open>
  A row of the output is a Python \<^verbatim>\<open>dict\<close>, which keeps its keys in insertion order: an
  association list, where assigning to a key that is present replaces its value in place
  (\<open>AList.update\<close>). \<^verbatim>\<open>row['Data'][i]\<close> raises \<^verbatim>\<open>IndexError\<close> when the row has no cell \<open>i\<close>.
\<close>

type_synonym row_dict = "(string \<times> string) list"

definition var_char_value :: "string option \<Rightarrow> string" where
  "var_char_value datum = (case datum of None \<Rightarrow> [] | Some v \<Rightarrow> v)"

fun fill_row :: "(nat \<times> string) list \<Rightarrow> string option list \<Rightarrow> row_dict \<Rightarrow> py_error + row_dict" where
  "fill_row [] data row_data = Inr row_data"
| "fill_row ((i, col) # others) data row_data =
     (if i < length data
      then fill_row others data (AList.update col (var_char_value (data ! i)) row_data)
      else Inl (IndexError ''list index out of range''))"

fun parse_rows :: "string list \<Rightarrow> string option list list \<Rightarrow> py_error + row_dict list" where
  "parse_rows columns [] = Inr []"
| "parse_rows columns (row # others) =
     (case fill_row (enumerate 0 columns) row [] of
        Inl e \<Rightarrow> Inl e
      | Inr row_data \<Rightarrow>
          (case parse_rows columns others of
             Inl e \<Rightarrow> Inl e
           | Inr rows \<Rightarrow> Inr (row_data # rows)))"

definition parse_result :: "result_set \<Rightarrow> py_error + (string list \<times> row_dict list)" where
  "parse_result result =
     (case parse_rows (ColumnInfo result) (drop 1 (Rows result)) of
        Inl e \<Rightarrow> Inl e
      | Inr rows \<Rightarrow> Inr (ColumnInfo result, rows))"

section \<open>The coordinator: \<^verbatim>\<open>execute_athena_query\<close>\<close>

text \<open>
  The dictionary that \<^verbatim>\<open>execute_athena_query\<close> returns: \<^verbatim>\<open>success: True\<close> with columns, rows
  and row count, or \<^verbatim>\<open>success: False\<close> with an error text. The \<^verbatim>\<open>except Exception\<close> around
  the whole body turns every exception into the second form, with \<^verbatim>\<open>str(e)\<close>.
\<close>

datatype exec_result =
    Query_Ok "string list" "row_dict list" nat
  | Query_Failed string

definition max_attempts :: nat where
  "max_attempts = 60"

text \<open>
  \<open>poll svc qid attempt\<close> is the \<^verbatim>\<open>while attempt < max_attempts\<close> loop from the value
  \<open>attempt\<close> of its counter, with the \<^verbatim>\<open>return\<close> that follows it: the result, and the calls
  made from there on. A round that finds a state other than \<^verbatim>\<open>SUCCEEDED\<close>, \<^verbatim>\<open>FAILED\<close> and
  \<^verbatim>\<open>CANCELLED\<close> sleeps one second and counts one attempt.
\<close>

function poll :: "athena \<Rightarrow> string \<Rightarrow> nat \<Rightarrow> exec_result \<times> call list" where
  "poll svc qid attempt =
     (if attempt < max_attempts then
        (case get_query_execution svc attempt qid of
           Inl e \<Rightarrow> (Query_Failed (str_exc e), [Get_Execution qid])
         | Inr query_status \<Rightarrow>
             if State query_status = ''SUCCEEDED'' then
               (case get_query_results svc qid 100 of
                  Inl e \<Rightarrow> (Query_Failed (str_exc e), [Get_Execution qid, Get_Results qid 100])
                | Inr result \<Rightarrow>
                    (case parse_result result of
                       Inl e \<Rightarrow>
                         (Query_Failed (str_exc e), [Get_Execution qid, Get_Results qid 100])
                     | Inr (columns, rows) \<Rightarrow>
                         (Query_Ok columns rows (length rows),
                          [Get_Execution qid, Get_Results qid 100])))
             else if State query_status \<in> set [''FAILED'', ''CANCELLED''] then
               (Query_Failed
                  (case StateChangeReason query_status of
                     None \<Rightarrow> ''Unknown error''
                   | Some reason \<Rightarrow> reason),
                [Get_Execution qid])
             else
               (case poll svc qid (attempt + 1) of
                  (r, calls) \<Rightarrow> (r, Get_Execution qid # Sleep 1 # calls)))
      else (Query_Failed ''Query timeout - exceeded maximum wait time'', []))"
  by pat_completeness auto
termination
  by (relation "measure (\<lambda>(svc, qid, attempt). max_attempts - attempt)") auto

declare poll.simps [simp del]

definition execute_athena_query :: "athena \<Rightarrow> string \<Rightarrow> exec_result \<times> call list" where
  "execute_athena_query svc query =
     (case start_query_execution svc query of
        Inl e \<Rightarrow> (Query_Failed (str_exc e), [Start_Query query])
      | Inr query_execution_id \<Rightarrow>
          (case poll svc query_execution_id 0 of
             (r, calls) \<Rightarrow> (r, Start_Query query # calls)))"

section \<open>The dispatcher: \<^verbatim>\<open>lambda_handler\<close>\<close>

text \<open>
  The Lambda context: \<^verbatim>\<open>context.client_context\<close> may be \<^verbatim>\<open>None\<close>, and so may its \<^verbatim>\<open>custom\<close>
  dictionary. \<^verbatim>\<open>str.index\<close> returns the lowest index at which the substring starts and
  raises \<^verbatim>\<open>ValueError\<close> when there is none.
\<close>

record lambda_client_context =
  custom :: "(string \<rightharpoonup> string) option"

record lambda_context =
  client_context :: "lambda_client_context option"

definition delimiter :: string where
  "delimiter = ''___''"

fun str_index :: "string \<Rightarrow> string \<Rightarrow> nat option" where
  "str_index [] sub = (if sub = [] then Some 0 else None)"
| "str_index (c # cs) sub =
     (if take (length sub) (c # cs) = sub then Some 0
      else map_option Suc (str_index cs sub))"

definition tool_name_of :: "lambda_context \<Rightarrow> py_error + string" where
  "tool_name_of context =
     (case client_context context of
        None \<Rightarrow>
          Inl (AttributeError (py_repr ''NoneType'' @ '' object has no attribute '' @ py_repr ''custom''))
      | Some cc \<Rightarrow>
          (case custom cc of
             None \<Rightarrow> Inl (TypeError (py_repr ''NoneType'' @ '' object is not subscriptable''))
           | Some m \<Rightarrow>
               (case m ''bedrockAgentCoreToolName'' of
                  None \<Rightarrow> Inl (KeyError ''bedrockAgentCoreToolName'')
                | Some original_tool_name \<Rightarrow>
                    (case str_index original_tool_name delimiter of
                       None \<Rightarrow> Inl (ValueError ''substring not found'')
                     | Some i \<Rightarrow> Inr (drop (i + length delimiter) original_tool_name)))))"

text \<open>
  The three dictionaries that \<^verbatim>\<open>lambda_handler\<close> returns:
  \<^verbatim>\<open>{'status': 'success', 'data': rows, 'metadata': {'columns': .., 'row_count': ..}}\<close>,
  \<^verbatim>\<open>{'status': 'error', 'error': msg}\<close> and \<^verbatim>\<open>{'success': False, 'error': msg}\<close>.
\<close>

datatype response =
    Status_Success "row_dict list" "string list" nat
  | Status_Error string
  | Success_False string

text \<open>
  Lines 203 to 243: what the handler does once the tool name is known. \<^verbatim>\<open>KeyError\<close> from
  \<^verbatim>\<open>format\<close> has a handler of its own; any other exception reaches the outer
  \<^verbatim>\<open>except Exception\<close>. The log lines are left out: they change no result, and
  \<^verbatim>\<open>json.dumps\<close> does not raise on a mapping of strings.
\<close>

definition run_tool :: "athena \<Rightarrow> event \<Rightarrow> string \<Rightarrow> response \<times> call list" where
  "run_tool svc event tool_name =
     (case map_of PREDEFINED_QUERIES tool_name of
        None \<Rightarrow> (Success_False (''Unknown tool: '' @ tool_name), [])
      | Some query_template \<Rightarrow>
          (case format_kw query_template event of
             Inl (KeyError k) \<Rightarrow>
               (Success_False (''Missing required parameter: '' @ str_exc (KeyError k)), [])
           | Inl e \<Rightarrow> (Status_Error (str_exc e), [])
           | Inr query \<Rightarrow>
               (case execute_athena_query svc query of
                  (Query_Ok columns rows row_count, calls) \<Rightarrow>
                    (Status_Success rows columns row_count, calls)
                | (Query_Failed err, calls) \<Rightarrow> (Status_Error err, calls))))"

definition lambda_handler :: "athena \<Rightarrow> event \<Rightarrow> lambda_context \<Rightarrow> response \<times> call list" where
  "lambda_handler svc event context =
     (case tool_name_of context of
        Inl e \<Rightarrow> (Status_Error (str_exc e), [])
      | Inr tool_name \<Rightarrow> run_tool svc event tool_name)"

section \<open>Fixtures and auxiliary predicates\<close>

text \<open>
  \<open>scans_to t ns\<close>: the template \<open>t\<close> is read to its end without a syntax error, its
  placeholders are \<open>ns\<close> in template order, and it has no escaped brace.
\<close>

definition no_literal_brace :: "piece list \<Rightarrow> bool" where
  "no_literal_brace ps = list_all (\<lambda>p. p \<noteq> Lit (CHR ''{'') \<and> p \<noteq> Lit (CHR ''}'')) ps"

definition scans_to :: "string \<Rightarrow> string list \<Rightarrow> bool" where
  "scans_to t ns =
     (case markup t of (ps, e) \<Rightarrow> e = None \<and> fields_of ps = ns \<and> no_literal_brace ps)"

text \<open>
  A Lambda context that carries only the gateway's tool name, and a simulated service
  that accepts every query, reports \<^verbatim>\<open>RUNNING\<close> until status request number \<open>k\<close> and
  \<^verbatim>\<open>SUCCEEDED\<close> from then on, and serves the given result page.
\<close>

definition gateway_context :: "string \<Rightarrow> lambda_context" where
  "gateway_context name =
     \<lparr>client_context = Some \<lparr>custom = Some [''bedrockAgentCoreToolName'' \<mapsto> name]\<rparr>\<rparr>"

definition simulated_service :: "nat \<Rightarrow> result_set \<Rightarrow> athena" where
  "simulated_service k page =
     \<lparr>start_query_execution = (\<lambda>query. Inr ''exec-1''),
      get_query_execution = (\<lambda>n qid.
        Inr \<lparr>State = (if Suc n < k then ''RUNNING'' else ''SUCCEEDED''),
             StateChangeReason = None\<rparr>),
      get_query_results = (\<lambda>qid max_results. Inr page)\<rparr>"

text \<open>The value under the key \<^verbatim>\<open>status\<close> of a response, when it has that key.\<close>

definition status_of :: "response \<Rightarrow> string option" where
  "status_of r =
     (case r of
        Status_Success rows columns row_count \<Rightarrow> Some ''success''
      | Status_Error msg \<Rightarrow> Some ''error''
      | Success_False msg \<Rightarrow> None)"

text \<open>
  \<open>non_terminal svc qid n\<close>: status request \<open>n\<close> is answered, with a state other than
  \<^verbatim>\<open>SUCCEEDED\<close>, \<^verbatim>\<open>FAILED\<close> and \<^verbatim>\<open>CANCELLED\<close>. \<open>waiting qid m\<close> is the calls of \<open>m\<close> rounds of the loop
  that found such a state: a status request, then a sleep of one second.
\<close>

definition non_terminal :: "athena \<Rightarrow> string \<Rightarrow> nat \<Rightarrow> bool" where
  "non_terminal svc qid n =
     (case get_query_execution svc n qid of
        Inl e \<Rightarrow> False
      | Inr status \<Rightarrow>
          State status \<noteq> ''SUCCEEDED'' \<and> State status \<noteq> ''FAILED'' \<and>
          State status \<noteq> ''CANCELLED'')"

definition waiting :: "string \<Rightarrow> nat \<Rightarrow> call list" where
  "waiting qid m = concat (replicate m [Get_Execution qid, Sleep 1])"

fun is_poll :: "call \<Rightarrow> bool" where
  "is_poll (Get_Execution qid) = True"
| "is_poll c = False"

fun is_fetch :: "call \<Rightarrow> bool" where
  "is_fetch (Get_Results qid n) = True"
| "is_fetch c = False"

fun is_submit :: "call \<Rightarrow> bool" where
  "is_submit (Start_Query q) = True"
| "is_submit c = False"

text \<open>
  A result page with columns \<^verbatim>\<open>a\<close>, \<^verbatim>\<open>b\<close>: the header row echoing the labels, then two data
  rows.
\<close>

definition page_ab :: result_set where
  "page_ab =
     \<lparr>ColumnInfo = [''a'', ''b''],
      Rows = [[Some ''a'', Some ''b''], [Some ''1'', Some ''2''], [Some ''3'', Some ''4'']]\<rparr>"

text \<open>
  A simulated service whose status request number \<open>k\<close> reports the given terminal state
  with the given reason, after \<^verbatim>\<open>RUNNING\<close> on the earlier ones; and a service that refuses
  every submission.
\<close>

definition failing_service :: "nat \<Rightarrow> string \<Rightarrow> string option \<Rightarrow> athena" where
  "failing_service k state reason =
     \<lparr>start_query_execution = (\<lambda>query. Inr ''exec-1''),
      get_query_execution = (\<lambda>n qid.
        Inr (if Suc n < k then \<lparr>State = ''RUNNING'', StateChangeReason = None\<rparr>
             else \<lparr>State = state, StateChangeReason = reason\<rparr>)),
      get_query_results = (\<lambda>qid max_results. Inl (ClientError ''no results''))\<rparr>"

definition rejecting_service :: "string \<Rightarrow> athena" where
  "rejecting_service msg =
     \<lparr>start_query_execution = (\<lambda>query. Inl (ClientError msg)),
      get_query_execution = (\<lambda>n qid. Inl (ClientError msg)),
      get_query_results = (\<lambda>qid max_results. Inl (ClientError msg))\<rparr>"

text \<open>
  Two more pages: one whose data row has a single cell under two columns, one whose two
  columns carry the same label.
\<close>

definition page_ragged :: result_set where
  "page_ragged =
     \<lparr>ColumnInfo = [''a'', ''b''], Rows = [[Some ''a'', Some ''b''], [Some ''1'']]\<rparr>"

definition page_same_label :: result_set where
  "page_same_label =
     \<lparr>ColumnInfo = [''a'', ''a''], Rows = [[Some ''a'', Some ''a''], [Some ''1'', Some ''2'']]\<rparr>"

text \<open>A page as \<^verbatim>\<open>get_inventory_status\<close> would receive it: the header and one data row.\<close>

definition inventory_columns :: "string list" where
  "inventory_columns =
     [''product_id'', ''product_name'', ''current_stock'', ''reorder_level'', ''stock_status'']"

definition inventory_page :: result_set where
  "inventory_page =
     \<lparr>ColumnInfo = inventory_columns,
      Rows = [map Some inventory_columns,
              [Some ''P-17'', Some ''Widget'', Some ''3'', Some ''10'', Some ''LOW'']]\<rparr>"

text \<open>
  Substitution, stated on the text. \<open>written p\<close> is how a piece stands in a template: a
  literal character as itself, a field as its name between braces. \<open>bound_text kw p\<close> is
  what stands in its place after binding: the character, or the text the mapping gives for
  the name. A piece is \<open>marker_free\<close> when it is a literal other than a brace, or a field
  whose name is not empty and has no brace.
\<close>

fun written :: "piece \<Rightarrow> string" where
  "written (Lit c) = [c]"
| "written (Field n) = CHR ''{'' # n @ [CHR ''}'']"

fun bound_text :: "event \<Rightarrow> piece \<Rightarrow> string" where
  "bound_text kw (Lit c) = [c]"
| "bound_text kw (Field n) = (case kw n of None \<Rightarrow> [] | Some v \<Rightarrow> v)"

fun marker_free :: "piece \<Rightarrow> bool" where
  "marker_free (Lit c) \<longleftrightarrow> c \<noteq> CHR ''{'' \<and> c \<noteq> CHR ''}''"
| "marker_free (Field n) \<longleftrightarrow> n \<noteq> [] \<and> CHR ''{'' \<notin> set n \<and> CHR ''}'' \<notin> set n"

text \<open>The query expected of \<^verbatim>\<open>get_top_customers\<close> with \<^verbatim>\<open>limit = 10\<close>.\<close>

definition top_customers_query_10 :: string where
  "top_customers_query_10 = concat
    [''\<newline>'',
     ''        SELECT \<newline>'',
     ''            customer_id,\<newline>'',
     ''            customer_name,\<newline>'',
     ''            SUM(total_amount) as lifetime_value,\<newline>'',
     ''            COUNT(order_id) as order_count\<newline>'',
     ''        FROM sales_table\<newline>'',
     ''        WHERE order_date >= DATE_ADD('year', -1, CURRENT_DATE)\<newline>'',
     ''        GROUP BY customer_id, customer_name\<newline>'',
     ''        ORDER BY lifetime_value DESC\<newline>'',
     ''        LIMIT 10\<newline>'',
     ''    '']"

text \<open>
  A simulated service like \<open>simulated_service\<close>, except that fetching the results raises.
\<close>

definition unfetchable_service :: "nat \<Rightarrow> string \<Rightarrow> athena" where
  "unfetchable_service k msg =
     \<lparr>start_query_execution = (\<lambda>query. Inr ''exec-1''),
      get_query_execution = (\<lambda>n qid.
        Inr \<lparr>State = (if Suc n < k then ''RUNNING'' else ''SUCCEEDED''),
             StateChangeReason = None\<rparr>),
      get_query_results = (\<lambda>qid max_results. Inl (ClientError msg))\<rparr>"

section \<open>Parameter binding\<close>

lemma render_first_missing:
  "find (\<lambda>n. kw n = None) (fields_of ps) = Some n \<Longrightarrow> render ps err kw = Inl (KeyError n)"
proof (induction ps)
  case Nil
  then show ?case by simp
next
  case (Cons p ps)
  then show ?case by (cases p) (auto split: if_splits)
qed

lemma find_missing_exists:
  "\<exists>m\<in>set ns. kw m = None \<Longrightarrow> \<exists>n. find (\<lambda>n. kw n = None) ns = Some n"
  by (induction ns) auto

lemma render_all_bound:
  "\<forall>n\<in>set (fields_of ps). kw n \<noteq> None \<Longrightarrow> \<exists>q. render ps None kw = Inr q"
proof (induction ps)
  case Nil
  then show ?case by simp
next
  case (Cons p ps)
  then show ?case by (cases p) auto
qed

lemma render_chars:
  "render ps None kw = Inr q \<Longrightarrow> c \<in> set q \<Longrightarrow>
     Lit c \<in> set ps \<or> (\<exists>n\<in>set (fields_of ps). \<exists>v. kw n = Some v \<and> c \<in> set v)"
proof (induction ps arbitrary: q)
  case Nil
  then show ?case by simp
next
  case (Cons p ps)
  then show ?case
    by (cases p) (auto split: sum.splits option.splits)
qed

lemma render_agree:
  "\<forall>n\<in>set (fields_of ps). kw' n = kw n \<Longrightarrow> render ps err kw' = render ps err kw"
proof (induction ps)
  case Nil
  then show ?case by (cases err) simp_all
next
  case (Cons p ps)
  then show ?case by (cases p) (auto split: sum.splits option.splits)
qed

text \<open>The six templates of the store, scanned.\<close>

lemma scan_get_sales_summary: "scans_to get_sales_summary_template []" by code_simp
lemma scan_get_top_customers: "scans_to get_top_customers_template [''limit'']" by code_simp
lemma scan_get_product_performance: "scans_to get_product_performance_template [''months'', ''limit'']" by code_simp
lemma scan_get_regional_breakdown: "scans_to get_regional_breakdown_template [''months'']" by code_simp
lemma scan_get_inventory_status: "scans_to get_inventory_status_template [''warehouse_id'']" by code_simp
lemma scan_get_order_details: "scans_to get_order_details_template [''order_id'']" by code_simp

lemma scans_toD:
  "scans_to t ns \<Longrightarrow> snd (markup t) = None \<and> placeholders t = ns \<and> no_literal_brace (fst (markup t))"
  by (auto simp: scans_to_def placeholders_def split: prod.splits)

lemma store_lookup:
  "map_of PREDEFINED_QUERIES tool_name = Some t \<Longrightarrow>
     t \<in> {get_sales_summary_template, get_top_customers_template,
          get_product_performance_template, get_regional_breakdown_template,
          get_inventory_status_template, get_order_details_template}"
  by (auto simp: PREDEFINED_QUERIES_def split: if_splits)

lemma store_templates_scan:
  assumes "map_of PREDEFINED_QUERIES tool_name = Some t"
  shows "snd (markup t) = None \<and> no_literal_brace (fst (markup t))"
proof -
  from store_lookup [OF assms] consider
      "t = get_sales_summary_template" | "t = get_top_customers_template"
    | "t = get_product_performance_template" | "t = get_regional_breakdown_template"
    | "t = get_inventory_status_template" | "t = get_order_details_template"
    by blast
  then show ?thesis
  proof cases
    case 1 then show ?thesis using scans_toD [OF scan_get_sales_summary] by simp
  next
    case 2 then show ?thesis using scans_toD [OF scan_get_top_customers] by simp
  next
    case 3 then show ?thesis using scans_toD [OF scan_get_product_performance] by simp
  next
    case 4 then show ?thesis using scans_toD [OF scan_get_regional_breakdown] by simp
  next
    case 5 then show ?thesis using scans_toD [OF scan_get_inventory_status] by simp
  next
    case 6 then show ?thesis using scans_toD [OF scan_get_order_details] by simp
  qed
qed

lemma format_kw_render: "format_kw t kw = render (fst (markup t)) (snd (markup t)) kw"
  by (simp add: format_kw_def split: prod.splits)

lemma tool_name_of_gateway_context:
  "tool_name_of (gateway_context (''gateway___'' @ name)) = Inr name"
  by (simp add: tool_name_of_def gateway_context_def delimiter_def)


lemma missing_parameter_response:
  assumes "map_of PREDEFINED_QUERIES tool_name = Some t"
    and "format_kw t event = Inl (KeyError n)"
    and "tool_name_of ctx = Inr tool_name"
  shows "lambda_handler svc event ctx =
           (Success_False (''Missing required parameter: '' @ py_repr n), [])"
  using assms by (simp add: lambda_handler_def run_tool_def)

lemma format_kw_first_missing:
  assumes "find (\<lambda>m. event m = None) (placeholders t) = Some n"
  shows "format_kw t event = Inl (KeyError n)"
  using assms by (simp add: format_kw_render placeholders_def render_first_missing)

lemma no_literal_braceD:
  "no_literal_brace ps \<Longrightarrow> Lit c \<in> set ps \<Longrightarrow> c \<noteq> CHR ''{'' \<and> c \<noteq> CHR ''}''"
  unfolding no_literal_brace_def list_all_iff by blast

section \<open>Tool-name extraction\<close>






section \<open>The polling loop\<close>

lemma poll_non_terminal:
  assumes "non_terminal svc qid a" and "a < max_attempts"
  shows "poll svc qid a =
           (fst (poll svc qid (Suc a)), Get_Execution qid # Sleep 1 # snd (poll svc qid (Suc a)))"
  using assms
  by (subst poll.simps) (auto simp: non_terminal_def split: sum.splits prod.splits)

lemma poll_waiting:
  "\<forall>j<m. non_terminal svc qid (a + j) \<Longrightarrow> a + m \<le> max_attempts \<Longrightarrow>
     poll svc qid a =
       (fst (poll svc qid (a + m)), waiting qid m @ snd (poll svc qid (a + m)))"
proof (induction m arbitrary: a)
  case 0
  then show ?case by (simp add: waiting_def)
next
  case (Suc m)
  from Suc.prems have nt: "non_terminal svc qid a" and lt: "a < max_attempts"
    by (auto dest: spec [of _ 0])
  have "\<forall>j<m. non_terminal svc qid (Suc a + j)"
    using Suc.prems(1) by (auto dest: spec [of _ "Suc _"])
  with Suc.IH [of "Suc a"] Suc.prems(2)
  have "poll svc qid (Suc a) =
          (fst (poll svc qid (Suc a + m)), waiting qid m @ snd (poll svc qid (Suc a + m)))"
    by simp
  with poll_non_terminal [OF nt lt] show ?case
    by (simp add: waiting_def)
qed

lemma poll_timeout:
  "poll svc qid max_attempts = (Query_Failed ''Query timeout - exceeded maximum wait time'', [])"
  by (subst poll.simps) simp

lemma poll_succeeded:
  assumes "a < max_attempts" and "get_query_execution svc a qid = Inr status"
    and "State status = ''SUCCEEDED''"
  shows "poll svc qid a =
     ((case get_query_results svc qid 100 of
         Inl e \<Rightarrow> Query_Failed (str_exc e)
       | Inr result \<Rightarrow>
           (case parse_result result of
              Inl e \<Rightarrow> Query_Failed (str_exc e)
            | Inr (columns, rows) \<Rightarrow> Query_Ok columns rows (length rows))),
      [Get_Execution qid, Get_Results qid 100])"
  using assms by (subst poll.simps) (simp split: sum.splits prod.splits)

lemma poll_failed:
  assumes "a < max_attempts" and "get_query_execution svc a qid = Inr status"
    and "State status = ''FAILED'' \<or> State status = ''CANCELLED''"
  shows "poll svc qid a =
     (Query_Failed (case StateChangeReason status of None \<Rightarrow> ''Unknown error'' | Some r \<Rightarrow> r),
      [Get_Execution qid])"
  using assms by (subst poll.simps) auto

lemma filter_waiting [simp]:
  "filter is_poll (waiting qid m) = replicate m (Get_Execution qid)"
  "filter is_fetch (waiting qid m) = []"
  "filter is_submit (waiting qid m) = []"
  by (induction m) (simp_all add: waiting_def)

lemma execute_submitted:
  "start_query_execution svc query = Inr qid \<Longrightarrow>
     execute_athena_query svc query =
       (fst (poll svc qid 0), Start_Query query # snd (poll svc qid 0))"
  by (simp add: execute_athena_query_def split: prod.splits)

lemma poll_from_start:
  assumes "\<forall>j<m. non_terminal svc qid j" and "m \<le> max_attempts"
  shows "poll svc qid 0 = (fst (poll svc qid m), waiting qid m @ snd (poll svc qid m))"
  using poll_waiting [of m svc qid 0] assms by simp

lemma parse_page_ab:
  "parse_result page_ab =
     Inr ([''a'', ''b''],
          [[(''a'', ''1''), (''b'', ''2'')], [(''a'', ''3''), (''b'', ''4'')]])"
  by (simp add: parse_result_def page_ab_def var_char_value_def)

lemma simulated_service_simps [simp]:
  "start_query_execution (simulated_service k page) query = Inr ''exec-1''"
  "get_query_execution (simulated_service k page) n qid =
     Inr \<lparr>State = (if Suc n < k then ''RUNNING'' else ''SUCCEEDED''), StateChangeReason = None\<rparr>"
  "get_query_results (simulated_service k page) qid m = Inr page"
  by (simp_all add: simulated_service_def)

lemma simulated_service_non_terminal:
  "Suc n < k \<Longrightarrow> non_terminal (simulated_service k page) qid n"
  by (simp add: non_terminal_def)

lemma parse_rows_length:
  "parse_rows columns rs = Inr rows \<Longrightarrow> length rows = length rs"
  by (induction rs arbitrary: rows) (auto split: sum.splits)

lemma parse_result_shape:
  "parse_result result = Inr (columns, rows) \<Longrightarrow>
     columns = ColumnInfo result \<and> length rows = length (Rows result) - 1"
  by (auto simp: parse_result_def split: sum.splits dest: parse_rows_length)

lemma poll_calls:
  "filter is_submit (snd (poll svc qid a)) = [] \<and>
   (filter is_fetch (snd (poll svc qid a)) = [] \<or>
    filter is_fetch (snd (poll svc qid a)) = [Get_Results qid 100])"
proof (induction svc qid a rule: poll.induct)
  case (1 svc qid attempt)
  define r where "r = poll svc qid attempt"
  note eq = poll.simps [of svc qid attempt, folded r_def]
  have "filter is_submit (snd r) = [] \<and>
   (filter is_fetch (snd r) = [] \<or> filter is_fetch (snd r) = [Get_Results qid 100])"
    using "1.IH" unfolding eq
    by (auto split: sum.splits prod.splits)
  then show ?case unfolding r_def .
qed

lemma poll_ok:
  "fst (poll svc qid a) = Query_Ok columns rows n \<Longrightarrow>
     filter is_fetch (snd (poll svc qid a)) = [Get_Results qid 100] \<and>
     (\<exists>result. get_query_results svc qid 100 = Inr result \<and>
        parse_result result = Inr (columns, rows) \<and> n = length rows)"
proof (induction svc qid a rule: poll.induct)
  case (1 svc qid attempt)
  define r where "r = poll svc qid attempt"
  note eq = poll.simps [of svc qid attempt, folded r_def]
  from "1.prems" have ok: "fst r = Query_Ok columns rows n"
    unfolding r_def .
  have "filter is_fetch (snd r) = [Get_Results qid 100] \<and>
     (\<exists>result. get_query_results svc qid 100 = Inr result \<and>
        parse_result result = Inr (columns, rows) \<and> n = length rows)"
    using "1.IH" ok unfolding eq
    by (auto split: sum.splits prod.splits if_splits)
  then show ?case unfolding r_def .
qed

lemma execute_calls:
  "length (filter is_submit (snd (execute_athena_query svc query))) = 1 \<and>
   length (filter is_fetch (snd (execute_athena_query svc query))) \<le> 1 \<and>
   (\<forall>c\<in>set (snd (execute_athena_query svc query)).
      is_fetch c \<longrightarrow> (\<exists>qid. c = Get_Results qid 100))"
proof (cases "start_query_execution svc query")
  case (Inl e)
  then show ?thesis by (simp add: execute_athena_query_def)
next
  case (Inr qid)
  have "c = Get_Results qid 100" if "c \<in> set (snd (poll svc qid 0))" "is_fetch c" for c
  proof -
    define F where "F = filter is_fetch (snd (poll svc qid 0))"
    from that have mem: "c \<in> set F" by (simp add: F_def)
    from poll_calls [of svc qid 0] have "F = [] \<or> F = [Get_Results qid 100]"
      unfolding F_def by (rule conjunct2)
    with mem show ?thesis by auto
  qed
  with poll_calls [of svc qid 0] show ?thesis
    by (auto simp: execute_submitted [OF Inr])
qed

lemma execute_ok:
  assumes "fst (execute_athena_query svc query) = Query_Ok columns rows n"
  shows "\<exists>qid result.
           filter is_fetch (snd (execute_athena_query svc query)) = [Get_Results qid 100] \<and>
           get_query_results svc qid 100 = Inr result \<and>
           parse_result result = Inr (columns, rows) \<and> n = length rows"
proof (cases "start_query_execution svc query")
  case (Inl e)
  with assms show ?thesis by (simp add: execute_athena_query_def)
next
  case (Inr qid)
  with assms have "fst (poll svc qid 0) = Query_Ok columns rows n"
    by (simp add: execute_submitted)
  from poll_ok [OF this] show ?thesis
    by (auto simp: execute_submitted [OF Inr])
qed

lemma failing_service_simps [simp]:
  "start_query_execution (failing_service k state reason) query = Inr ''exec-1''"
  "get_query_execution (failing_service k state reason) n qid =
     Inr (if Suc n < k then \<lparr>State = ''RUNNING'', StateChangeReason = None\<rparr>
          else \<lparr>State = state, StateChangeReason = reason\<rparr>)"
  by (simp_all add: failing_service_def)

lemma failing_service_non_terminal:
  "Suc n < k \<Longrightarrow> non_terminal (failing_service k state reason) qid n"
  by (simp add: non_terminal_def)

lemma execute_simulated_page_ab:
  "execute_athena_query (simulated_service 1 page_ab) ''SELECT 1'' =
     (Query_Ok [''a'', ''b'']
        [[(''a'', ''1''), (''b'', ''2'')], [(''a'', ''3''), (''b'', ''4'')]] 2,
      [Start_Query ''SELECT 1'', Get_Execution ''exec-1'', Get_Results ''exec-1'' 100])"
  by (simp add: execute_athena_query_def poll.simps [of _ _ 0] max_attempts_def parse_page_ab)

section \<open>The handler\<close>

lemma run_tool_success:
  assumes "fst (run_tool svc event tool_name) = Status_Success data columns n"
  shows "\<exists>t query. map_of PREDEFINED_QUERIES tool_name = Some t \<and>
           format_kw t event = Inr query \<and>
           fst (execute_athena_query svc query) = Query_Ok columns data n"
  using assms
  by (auto simp: run_tool_def split: option.splits sum.splits py_error.splits prod.splits
        exec_result.splits)

lemma lambda_handler_success:
  assumes "fst (lambda_handler svc event ctx) = Status_Success data columns n"
  shows "\<exists>tool_name. tool_name_of ctx = Inr tool_name \<and>
           fst (run_tool svc event tool_name) = Status_Success data columns n"
  using assms by (auto simp: lambda_handler_def split: sum.splits)

lemma immediate_success:
  assumes "start_query_execution svc query = Inr qid"
    and "get_query_execution svc 0 qid = Inr status" and "State status = ''SUCCEEDED''"
    and "get_query_results svc qid 100 = Inr result"
    and "parse_result result = Inr (columns, rows)"
  shows "execute_athena_query svc query =
           (Query_Ok columns rows (length rows),
            [Start_Query query, Get_Execution qid, Get_Results qid 100])"
proof -
  have "0 < max_attempts" by (simp add: max_attempts_def)
  from poll_succeeded [OF this assms(2,3)] assms(4,5)
  show ?thesis by (simp add: execute_submitted [OF assms(1)])
qed

section \<open>Materialization\<close>

lemma fill_row_ok:
  "i + length cols \<le> length data \<Longrightarrow> \<exists>r. fill_row (enumerate i cols) data acc = Inr r"
  by (induction cols arbitrary: i acc) auto

lemma fill_row_short:
  "i \<le> length data \<Longrightarrow> length data < i + length cols \<Longrightarrow>
     fill_row (enumerate i cols) data acc = Inl (IndexError ''list index out of range'')"
  by (induction cols arbitrary: i acc) auto

lemma remdups_drop_earlier:
  "k \<in> set ys \<Longrightarrow> remdups (xs @ k # ys) = remdups (xs @ ys)"
  by (induction xs) auto

lemma fill_row_keys:
  "fill_row (enumerate i cols) data acc = Inr r \<Longrightarrow>
     map fst r = rev (remdups (rev (map fst acc @ cols)))"
  if "distinct (map fst acc)"
  using that
proof (induction cols arbitrary: i acc)
  case Nil
  then show ?case by (simp add: distinct_remdups_id)
next
  case (Cons c cs)
  let ?acc = "AList.update c (var_char_value (data ! i)) acc"
  from Cons.prems have r: "fill_row (enumerate (Suc i) cs) data ?acc = Inr r"
    by (auto split: if_splits)
  have d: "distinct (map fst ?acc)"
    using Cons.prems by (simp add: AList.distinct_update)
  from Cons.IH [OF r d] have "map fst r = rev (remdups (rev (map fst ?acc @ cs)))" .
  also have "\<dots> = rev (remdups (rev (map fst acc @ c # cs)))"
    by (auto simp: AList.update_keys remdups_drop_earlier)
  finally show ?case .
qed

lemma fill_row_other_key:
  "fill_row (enumerate i cols) data acc = Inr r \<Longrightarrow> k \<notin> set cols \<Longrightarrow>
     map_of r k = map_of acc k"
  by (induction cols arbitrary: i acc) (auto simp: AList.update_conv' split: if_splits)

lemma fill_row_value:
  "fill_row (enumerate i cols) data acc = Inr r \<Longrightarrow> j < length cols \<Longrightarrow>
     cols ! j \<notin> set (drop (Suc j) cols) \<Longrightarrow>
     map_of r (cols ! j) = Some (var_char_value (data ! (i + j)))"
proof (induction cols arbitrary: i acc j)
  case Nil
  then show ?case by simp
next
  case (Cons c cs)
  let ?acc = "AList.update c (var_char_value (data ! i)) acc"
  from Cons.prems(1) have r: "fill_row (enumerate (Suc i) cs) data ?acc = Inr r"
    by (auto split: if_splits)
  show ?case
  proof (cases j)
    case 0
    with Cons.prems(3) have "c \<notin> set cs" by simp
    from fill_row_other_key [OF r this] 0 show ?thesis
      by (simp add: AList.update_conv')
  next
    case (Suc j')
    with Cons.prems have "j' < length cs" "cs ! j' \<notin> set (drop (Suc j') cs)"
      by simp_all
    from Cons.IH [OF r this] Suc show ?thesis by simp
  qed
qed

lemma update_new_key:
  "k \<notin> fst ` set al \<Longrightarrow> AList.update k v al = al @ [(k, v)]"
  by (induction al) auto

lemma fill_row_distinct:
  "fill_row (enumerate i cols) data acc = Inr r \<Longrightarrow> distinct cols \<Longrightarrow>
     set cols \<inter> fst ` set acc = {} \<Longrightarrow>
     r = acc @ zip cols (map var_char_value (drop i data))"
proof (induction cols arbitrary: i acc)
  case Nil
  then show ?case by simp
next
  case (Cons c cs)
  let ?v = "var_char_value (data ! i)"
  from Cons.prems(1) have lt: "i < length data"
    and r: "fill_row (enumerate (Suc i) cs) data (AList.update c ?v acc) = Inr r"
    by (auto split: if_splits)
  from Cons.prems(3) have u: "AList.update c ?v acc = acc @ [(c, ?v)]"
    by (intro update_new_key) auto
  have "set cs \<inter> fst ` set (acc @ [(c, ?v)]) = {}"
    using Cons.prems(2,3) by auto
  with Cons.IH [of "Suc i" "acc @ [(c, ?v)]"] r u Cons.prems(2)
  have "r = (acc @ [(c, ?v)]) @ zip cs (map var_char_value (drop (Suc i) data))"
    by simp
  moreover have "drop i data = data ! i # drop (Suc i) data"
    using lt by (simp add: Cons_nth_drop_Suc)
  ultimately show ?case by simp
qed

lemma parse_rows_nth:
  "parse_rows cols rs = Inr rows \<Longrightarrow>
     length rows = length rs \<and>
     (\<forall>i<length rs. fill_row (enumerate 0 cols) (rs ! i) [] = Inr (rows ! i))"
proof (induction rs arbitrary: rows)
  case Nil
  then show ?case by simp
next
  case (Cons row rs)
  from Cons.prems obtain d ds where
    d: "fill_row (enumerate 0 cols) row [] = Inr d" and
    ds: "parse_rows cols rs = Inr ds" and rows: "rows = d # ds"
    by (auto split: sum.splits)
  from Cons.IH [OF ds] d rows show ?case
    by (auto simp: nth_Cons split: nat.splits)
qed

lemma parse_rows_ok:
  "\<forall>row\<in>set rs. length cols \<le> length row \<Longrightarrow> \<exists>rows. parse_rows cols rs = Inr rows"
proof (induction rs)
  case Nil
  then show ?case by simp
next
  case (Cons row rs)
  then obtain ds where "parse_rows cols rs = Inr ds" by auto
  moreover from Cons.prems fill_row_ok [of 0 cols row "[]"]
  obtain d where "fill_row (enumerate 0 cols) row [] = Inr d" by auto
  ultimately show ?case by simp
qed

lemma parse_rows_ragged:
  "\<exists>row\<in>set rs. length row < length cols \<Longrightarrow>
     parse_rows cols rs = Inl (IndexError ''list index out of range'')"
proof (induction rs)
  case Nil
  then show ?case by simp
next
  case (Cons row rs)
  show ?case
  proof (cases "length row < length cols")
    case True
    then show ?thesis by (simp add: fill_row_short)
  next
    case False
    with Cons have "parse_rows cols rs = Inl (IndexError ''list index out of range'')"
      by auto
    moreover from False fill_row_ok [of 0 cols row "[]"]
    obtain d where "fill_row (enumerate 0 cols) row [] = Inr d" by auto
    ultimately show ?thesis by simp
  qed
qed

lemma split_field_text:
  "split_field cs = Some (f, r) \<Longrightarrow> cs = f @ CHR ''}'' # r \<and> CHR ''}'' \<notin> set f"
  by (induction cs arbitrary: f r) (auto split: if_splits option.splits)

lemma plain_field_no_open:
  "plain_field f \<Longrightarrow> f \<noteq> [] \<and> CHR ''{'' \<notin> set f"
  by (auto simp: plain_field_def list_all_iff)

lemma markup_written:
  "snd (markup t) = None \<Longrightarrow> no_literal_brace (fst (markup t)) \<Longrightarrow>
     concat (map written (fst (markup t))) = t \<and> list_all marker_free (fst (markup t))"
proof (induction t rule: markup.induct)
  case 1
  then show ?case by simp
next
  case (2 c cs)
  show ?case
  proof (cases "c = CHR ''{''")
    case True
    note open_brace = True
    show ?thesis
    proof (cases cs)
      case Nil
      with "2.prems" open_brace show ?thesis by simp
    next
      case (Cons d ds)
      show ?thesis
      proof (cases "d = CHR ''{''")
        case True
        with "2.prems" open_brace Cons show ?thesis
          by (simp add: no_literal_brace_def split: prod.splits)
      next
        case False
        with "2.prems" open_brace Cons obtain f rest where
          sf: "split_field (d # ds) = Some (f, rest)" and pf: "plain_field f"
          by (auto split: option.splits if_splits)
        from "2.prems" open_brace Cons False sf pf
        have e: "snd (markup rest) = None" and b: "no_literal_brace (fst (markup rest))"
          and m: "fst (markup (c # cs)) = Field f # fst (markup rest)"
          by (auto simp: no_literal_brace_def split: prod.splits)
        from "2.IH"(2) [OF open_brace Cons False sf refl pf e b]
        have ih: "concat (map written (fst (markup rest))) = rest"
          "list_all marker_free (fst (markup rest))"
          by simp_all
        from split_field_text [OF sf] plain_field_no_open [OF pf] ih m open_brace Cons
        show ?thesis by simp
      qed
    qed
  next
    case False
    note not_open = False
    show ?thesis
    proof (cases "c = CHR ''}''")
      case True
      with "2.prems" not_open show ?thesis
        by (auto simp: no_literal_brace_def split: list.splits if_splits prod.splits)
    next
      case False
      with "2.prems" not_open
      have e: "snd (markup cs) = None" and b: "no_literal_brace (fst (markup cs))"
        and m: "fst (markup (c # cs)) = Lit c # fst (markup cs)"
        by (auto simp: no_literal_brace_def split: prod.splits)
      from "2.IH"(4) [OF not_open False e b] m not_open False
      show ?thesis by simp
    qed
  qed
qed

lemma render_bound_text:
  "\<forall>n\<in>set (fields_of ps). kw n \<noteq> None \<Longrightarrow>
     render ps None kw = Inr (concat (map (bound_text kw) ps))"
proof (induction ps)
  case Nil
  then show ?case by simp
next
  case (Cons p ps)
  then show ?case by (cases p) auto
qed

lemma format_top_customers_10:
  "format_kw get_top_customers_template [''limit'' \<mapsto> ''10''] = Inr top_customers_query_10"
  by code_simp

lemma unfetchable_service_simps [simp]:
  "start_query_execution (unfetchable_service k msg) query = Inr ''exec-1''"
  "get_query_execution (unfetchable_service k msg) n qid =
     Inr \<lparr>State = (if Suc n < k then ''RUNNING'' else ''SUCCEEDED''), StateChangeReason = None\<rparr>"
  "get_query_results (unfetchable_service k msg) qid m = Inl (ClientError msg)"
  by (simp_all add: unfetchable_service_def)

lemma unfetchable_service_non_terminal:
  "Suc n < k \<Longrightarrow> non_terminal (unfetchable_service k msg) qid n"
  by (simp add: non_terminal_def)

text \<open>
  Claim C3. Whenever the parameter mapping lacks a placeholder of the template, binding
  raises \<^verbatim>\<open>KeyError\<close> for the first placeholder, in template order, that the mapping lacks.
  For a template of the store the handler then makes no call to the service and answers
  \<^verbatim>\<open>{'success': False, 'error': "Missing required parameter: '<name>'"}\<close>: the message names
  that placeholder, but the dictionary has no \<^verbatim>\<open>status\<close> key, unlike the error envelope of
  the handler's other returns. \<^verbatim>\<open>get_product_performance\<close> with an empty mapping names
  \<^verbatim>\<open>months\<close>, in that same dictionary.
\<close>

theorem binding_names_first_missing_placeholder:
  "((\<exists>m\<in>set (placeholders t). event m = None) \<longrightarrow>
     (\<exists>n. find (\<lambda>m. event m = None) (placeholders t) = Some n \<and>
          format_kw t event = Inl (KeyError n) \<and>
          (\<forall>svc ctx tool_name.
             map_of PREDEFINED_QUERIES tool_name = Some t \<and>
             tool_name_of ctx = Inr tool_name \<longrightarrow>
             lambda_handler svc event ctx =
               (Success_False (''Missing required parameter: '' @ [CHR 0x27] @ n @ [CHR 0x27]),
                []) \<and>
             status_of (fst (lambda_handler svc event ctx)) = None))) \<and>
   (\<forall>svc ctx.
      tool_name_of ctx = Inr ''get_product_performance'' \<longrightarrow>
      lambda_handler svc Map.empty ctx =
        (Success_False (''Missing required parameter: 'months'' @ [CHR 0x27]), []) \<and>
      status_of (fst (lambda_handler svc Map.empty ctx)) = None)"
proof (intro conjI impI allI)
  assume "\<exists>m\<in>set (placeholders t). event m = None"
  then have "\<exists>n. find (\<lambda>m. event m = None) (placeholders t) = Some n"
    by (rule find_missing_exists)
  then obtain n where n: "find (\<lambda>m. event m = None) (placeholders t) = Some n" ..
  have f: "format_kw t event = Inl (KeyError n)"
    by (rule format_kw_first_missing [OF n])
  have h: "\<forall>svc ctx tool_name.
          map_of PREDEFINED_QUERIES tool_name = Some t \<and>
          tool_name_of ctx = Inr tool_name \<longrightarrow>
          lambda_handler svc event ctx =
            (Success_False (''Missing required parameter: '' @ [CHR 0x27] @ n @ [CHR 0x27]),
             []) \<and>
          status_of (fst (lambda_handler svc event ctx)) = None"
  proof (intro allI impI)
    fix svc ctx tool_name
    assume a: "map_of PREDEFINED_QUERIES tool_name = Some t \<and>
               tool_name_of ctx = Inr tool_name"
    from missing_parameter_response [OF conjunct1 [OF a] f conjunct2 [OF a]]
    show "lambda_handler svc event ctx =
            (Success_False (''Missing required parameter: '' @ [CHR 0x27] @ n @ [CHR 0x27]),
             []) \<and>
          status_of (fst (lambda_handler svc event ctx)) = None"
      by (simp add: py_repr_def status_of_def)
  qed
  show "\<exists>n. find (\<lambda>m. event m = None) (placeholders t) = Some n \<and>
          format_kw t event = Inl (KeyError n) \<and>
          (\<forall>svc ctx tool_name.
             map_of PREDEFINED_QUERIES tool_name = Some t \<and>
             tool_name_of ctx = Inr tool_name \<longrightarrow>
             lambda_handler svc event ctx =
               (Success_False (''Missing required parameter: '' @ [CHR 0x27] @ n @ [CHR 0x27]),
                []) \<and>
             status_of (fst (lambda_handler svc event ctx)) = None)"
    by (intro exI [of _ n] conjI) (rule n, rule f, rule h)
next
  fix svc ctx
  assume c: "tool_name_of ctx = Inr ''get_product_performance''"
  have s: "map_of PREDEFINED_QUERIES ''get_product_performance'' =
             Some get_product_performance_template"
    by (simp add: PREDEFINED_QUERIES_def)
  have "find (\<lambda>m. Map.empty m = None) (placeholders get_product_performance_template) =
          Some ''months''"
    using scans_toD [OF scan_get_product_performance] by simp
  then have "format_kw get_product_performance_template Map.empty = Inl (KeyError ''months'')"
    by (rule format_kw_first_missing)
  from missing_parameter_response [OF s this c]
  have r: "lambda_handler svc Map.empty ctx =
          (Success_False (''Missing required parameter: 'months'' @ [CHR 0x27]), [])"
    by (simp add: py_repr_def)
  then show "lambda_handler svc Map.empty ctx =
          (Success_False (''Missing required parameter: 'months'' @ [CHR 0x27]), [])" .
  from r show "status_of (fst (lambda_handler svc Map.empty ctx)) = None"
    by (simp add: status_of_def)
qed

theorem binding_names_first_missing_placeholder_witness:
  "(\<exists>m\<in>set (placeholders get_top_customers_template). Map.empty m = (None :: string option)) \<and>
   format_kw get_top_customers_template Map.empty = Inl (KeyError ''limit'') \<and>
   lambda_handler (simulated_service 1 \<lparr>ColumnInfo = [], Rows = []\<rparr>) Map.empty
       (gateway_context ''gateway___get_top_customers'') =
     (Success_False (''Missing required parameter: 'limit'' @ [CHR 0x27]), []) \<and>
   status_of (fst (lambda_handler (simulated_service 1 \<lparr>ColumnInfo = [], Rows = []\<rparr>) Map.empty
       (gateway_context ''gateway___get_top_customers''))) = None \<and>
   tool_name_of (gateway_context ''gateway___get_product_performance'') =
     Inr ''get_product_performance'' \<and>
   lambda_handler (simulated_service 1 \<lparr>ColumnInfo = [], Rows = []\<rparr>) Map.empty
       (gateway_context ''gateway___get_product_performance'') =
     (Success_False (''Missing required parameter: 'months'' @ [CHR 0x27]), [])"
proof -
  have p: "placeholders get_top_customers_template = [''limit'']"
    using scans_toD [OF scan_get_top_customers] by simp
  have s: "map_of PREDEFINED_QUERIES ''get_top_customers'' = Some get_top_customers_template"
    by (simp add: PREDEFINED_QUERIES_def)
  have c: "tool_name_of (gateway_context ''gateway___get_top_customers'') = Inr ''get_top_customers''"
    using tool_name_of_gateway_context [of "''get_top_customers''"] by simp
  have c': "tool_name_of (gateway_context ''gateway___get_product_performance'') =
      Inr ''get_product_performance''"
    using tool_name_of_gateway_context [of "''get_product_performance''"] by simp
  let ?svc = "simulated_service 1 \<lparr>ColumnInfo = [], Rows = []\<rparr>"
  note t = binding_names_first_missing_placeholder [of get_top_customers_template Map.empty]
  have ex: "\<exists>m\<in>set (placeholders get_top_customers_template).
      Map.empty m = (None :: string option)"
    by (simp add: p)
  from t [THEN conjunct1, THEN mp, OF ex] obtain n where
    n: "find (\<lambda>m. Map.empty m = (None :: string option))
          (placeholders get_top_customers_template) = Some n"
    and f: "format_kw get_top_customers_template Map.empty = Inl (KeyError n)"
    and h: "\<forall>svc ctx tool_name.
          map_of PREDEFINED_QUERIES tool_name = Some get_top_customers_template \<and>
          tool_name_of ctx = Inr tool_name \<longrightarrow>
          lambda_handler svc Map.empty ctx =
            (Success_False (''Missing required parameter: '' @ [CHR 0x27] @ n @ [CHR 0x27]),
             []) \<and>
          status_of (fst (lambda_handler svc Map.empty ctx)) = None"
    by blast
  from n p have nl: "n = ''limit''" by simp
  have eq: "''Missing required parameter: '' @ [CHR 0x27] @ ''limit'' @ [CHR 0x27] =
      ''Missing required parameter: 'limit'' @ [CHR 0x27]"
    by simp
  from h [THEN spec, THEN spec, THEN spec, THEN mp, OF conjI [OF s c], of ?svc]
  have r1: "lambda_handler ?svc Map.empty (gateway_context ''gateway___get_top_customers'') =
      (Success_False (''Missing required parameter: 'limit'' @ [CHR 0x27]), []) \<and>
    status_of (fst (lambda_handler ?svc Map.empty
      (gateway_context ''gateway___get_top_customers''))) = None"
    unfolding nl eq .
  from t [THEN conjunct2, THEN spec, THEN spec, THEN mp, OF c', of ?svc]
  have r2: "lambda_handler ?svc Map.empty (gateway_context ''gateway___get_product_performance'') =
      (Success_False (''Missing required parameter: 'months'' @ [CHR 0x27]), [])"
    by (rule conjunct1)
  from f have f': "format_kw get_top_customers_template Map.empty = Inl (KeyError ''limit'')"
    unfolding nl .
  from ex f' r1 [THEN conjunct1] r1 [THEN conjunct2] c' r2 show ?thesis
    by (intro conjI)
qed

text \<open>
  Claim C4. For a template of the store and a parameter mapping with an entry for each of
  its placeholders, binding succeeds and substitutes: the template reads as a sequence of
  literal characters, none of them a brace, and markers \<^verbatim>\<open>{name}\<close>, and the query is that
  sequence with each marker replaced by the text the mapping gives for its name. Every
  brace left in the query thus comes from a supplied value, so no placeholder stays
  unsubstituted; and a mapping that agrees on the placeholders, whatever else it holds,
  gives the same query.
\<close>

theorem binding_substitutes_every_placeholder:
  assumes store: "map_of PREDEFINED_QUERIES tool_name = Some t"
    and bound: "\<forall>n\<in>set (placeholders t). event n \<noteq> None"
  shows "\<exists>ps query.
           t = concat (map written ps) \<and> list_all marker_free ps \<and>
           fields_of ps = placeholders t \<and>
           format_kw t event = Inr query \<and>
           query = concat (map (bound_text event) ps) \<and>
           (\<forall>c\<in>set query. c = CHR ''{'' \<or> c = CHR ''}'' \<longrightarrow>
              (\<exists>n\<in>set (placeholders t). \<exists>v. event n = Some v \<and> c \<in> set v)) \<and>
           (\<forall>event'. (\<forall>n\<in>set (placeholders t). event' n = event n) \<longrightarrow>
              format_kw t event' = Inr query)"
proof -
  let ?ps = "fst (markup t)"
  from store_templates_scan [OF store]
  have e: "snd (markup t) = None" and b: "no_literal_brace ?ps"
    by simp_all
  from markup_written [OF e b]
  have w: "t = concat (map written ?ps)" and mf: "list_all marker_free ?ps"
    by simp_all
  have f: "fields_of ?ps = placeholders t"
    by (simp add: placeholders_def)
  define query where "query = concat (map (bound_text event) ?ps)"
  from bound have r: "render ?ps None event = Inr query"
    unfolding placeholders_def query_def by (rule render_bound_text)
  then have q: "format_kw t event = Inr query"
    by (simp add: format_kw_render e)
  have braces: "\<forall>c\<in>set query. c = CHR ''{'' \<or> c = CHR ''}'' \<longrightarrow>
              (\<exists>n\<in>set (placeholders t). \<exists>v. event n = Some v \<and> c \<in> set v)"
  proof (intro ballI impI)
    fix c
    assume c: "c \<in> set query" and cb: "c = CHR ''{'' \<or> c = CHR ''}''"
    from render_chars [OF r c] no_literal_braceD [OF b, of c] cb
    show "\<exists>n\<in>set (placeholders t). \<exists>v. event n = Some v \<and> c \<in> set v"
      unfolding placeholders_def by blast
  qed
  have extra: "\<forall>event'. (\<forall>n\<in>set (placeholders t). event' n = event n) \<longrightarrow>
              format_kw t event' = Inr query"
  proof (intro allI impI)
    fix event' :: event
    assume "\<forall>n\<in>set (placeholders t). event' n = event n"
    then have "render ?ps (snd (markup t)) event' = render ?ps (snd (markup t)) event"
      unfolding placeholders_def by (rule render_agree)
    then show "format_kw t event' = Inr query"
      using q by (simp add: format_kw_render)
  qed
  have "t = concat (map written ?ps) \<and> list_all marker_free ?ps \<and>
           fields_of ?ps = placeholders t \<and>
           format_kw t event = Inr query \<and>
           query = concat (map (bound_text event) ?ps) \<and>
           (\<forall>c\<in>set query. c = CHR ''{'' \<or> c = CHR ''}'' \<longrightarrow>
              (\<exists>n\<in>set (placeholders t). \<exists>v. event n = Some v \<and> c \<in> set v)) \<and>
           (\<forall>event'. (\<forall>n\<in>set (placeholders t). event' n = event n) \<longrightarrow>
              format_kw t event' = Inr query)"
    using w mf f q query_def braces extra by (intro conjI) assumption+
  then show ?thesis by (intro exI)
qed

theorem binding_substitutes_every_placeholder_witness:
  "map_of PREDEFINED_QUERIES ''get_top_customers'' = Some get_top_customers_template \<and>
   placeholders get_top_customers_template = [''limit''] \<and>
   format_kw get_top_customers_template [''limit'' \<mapsto> ''10''] = Inr top_customers_query_10 \<and>
   format_kw get_top_customers_template [''limit'' \<mapsto> ''10'', ''months'' \<mapsto> ''3''] =
     Inr top_customers_query_10 \<and>
   CHR ''{'' \<notin> set top_customers_query_10 \<and> CHR ''}'' \<notin> set top_customers_query_10"
proof -
  let ?ev = "[''limit'' \<mapsto> ''10'']"
  have s: "map_of PREDEFINED_QUERIES ''get_top_customers'' = Some get_top_customers_template"
    by (simp add: PREDEFINED_QUERIES_def)
  have p: "placeholders get_top_customers_template = [''limit'']"
    using scans_toD [OF scan_get_top_customers] by simp
  have b: "\<forall>n\<in>set (placeholders get_top_customers_template). ?ev n \<noteq> None"
    by (simp add: p)
  from binding_substitutes_every_placeholder [OF s b] obtain ps query where
    q: "format_kw get_top_customers_template ?ev = Inr query"
    and br: "\<forall>c\<in>set query. c = CHR ''{'' \<or> c = CHR ''}'' \<longrightarrow>
              (\<exists>n\<in>set (placeholders get_top_customers_template).
                 \<exists>v. ?ev n = Some v \<and> c \<in> set v)"
    and ex: "\<forall>event'. (\<forall>n\<in>set (placeholders get_top_customers_template). event' n = ?ev n) \<longrightarrow>
              format_kw get_top_customers_template event' = Inr query"
    by blast
  from q have qq: "query = top_customers_query_10"
    by (simp add: format_top_customers_10)
  have "\<forall>n\<in>set (placeholders get_top_customers_template).
          [''limit'' \<mapsto> ''10'', ''months'' \<mapsto> ''3''] n = ?ev n"
    by (simp add: p)
  with ex have x: "format_kw get_top_customers_template [''limit'' \<mapsto> ''10'', ''months'' \<mapsto> ''3''] =
     Inr query"
    by blast
  from br have nb: "CHR ''{'' \<notin> set query \<and> CHR ''}'' \<notin> set query"
    by (auto simp: p)
  from s p q x nb show ?thesis
    unfolding qq by (intro conjI) simp_all
qed

text \<open>
  Claim C5. For a tool name that is not a key of the store, whatever the event and the
  service, the handler makes no call to the service, so no query is submitted, and
  answers \<^verbatim>\<open>{'success': False, 'error': 'Unknown tool: <name>'}\<close>: a dictionary with no
  \<^verbatim>\<open>status\<close> key, unlike the error envelope of the handler's other returns.
\<close>

theorem unknown_tool_is_rejected_without_query:
  assumes "tool_name_of ctx = Inr tool_name"
    and "tool_name \<notin> fst ` set PREDEFINED_QUERIES"
  shows "lambda_handler svc event ctx = (Success_False (''Unknown tool: '' @ tool_name), []) \<and>
         status_of (fst (lambda_handler svc event ctx)) = None"
proof -
  from assms(2) have "map_of PREDEFINED_QUERIES tool_name = None"
    by (simp add: map_of_eq_None_iff)
  with assms(1) show ?thesis
    by (simp add: lambda_handler_def run_tool_def status_of_def)
qed

theorem unknown_tool_is_rejected_without_query_witness:
  "tool_name_of (gateway_context ''gateway___drop_tables'') = Inr ''drop_tables'' \<and>
   ''drop_tables'' \<notin> fst ` set PREDEFINED_QUERIES \<and>
   lambda_handler (simulated_service 1 \<lparr>ColumnInfo = [], Rows = []\<rparr>)
       [''limit'' \<mapsto> ''10''] (gateway_context ''gateway___drop_tables'') =
     (Success_False ''Unknown tool: drop_tables'', []) \<and>
   status_of (fst (lambda_handler (simulated_service 1 \<lparr>ColumnInfo = [], Rows = []\<rparr>)
       [''limit'' \<mapsto> ''10''] (gateway_context ''gateway___drop_tables''))) = None"
proof -
  have c: "tool_name_of (gateway_context ''gateway___drop_tables'') = Inr ''drop_tables''"
    using tool_name_of_gateway_context [of "''drop_tables''"] by simp
  have n: "''drop_tables'' \<notin> fst ` set PREDEFINED_QUERIES"
    by (simp add: PREDEFINED_QUERIES_def)
  note r = unknown_tool_is_rejected_without_query [OF c n,
      of "simulated_service 1 \<lparr>ColumnInfo = [], Rows = []\<rparr>" "[''limit'' \<mapsto> ''10'']"]
  have eq: "''Unknown tool: '' @ ''drop_tables'' = ''Unknown tool: drop_tables''"
    by simp
  from c n r [THEN conjunct1, unfolded eq] r [THEN conjunct2] show ?thesis
    by (intro conjI)
qed



text \<open>
  Claim C6, at two inputs. For an unregistered tool name, and for a registered tool whose
  required parameter is missing, the handler returns a dictionary keyed \<^verbatim>\<open>success\<close>, with
  no \<^verbatim>\<open>status\<close> key, where every other path returns \<^verbatim>\<open>status: 'success'\<close> or
  \<^verbatim>\<open>status: 'error'\<close>.
\<close>

theorem unknown_tool_response_has_no_status:
  "lambda_handler svc Map.empty (gateway_context ''gateway___unknown_tool'') =
     (Success_False ''Unknown tool: unknown_tool'', []) \<and>
   status_of (fst (lambda_handler svc Map.empty (gateway_context ''gateway___unknown_tool''))) =
     None \<and>
   lambda_handler svc Map.empty (gateway_context ''gateway___get_top_customers'') =
     (Success_False (''Missing required parameter: '' @ py_repr ''limit''), []) \<and>
   status_of (fst (lambda_handler svc Map.empty (gateway_context ''gateway___get_top_customers''))) =
     None"
proof -
  have c: "tool_name_of (gateway_context ''gateway___unknown_tool'') = Inr ''unknown_tool''"
    using tool_name_of_gateway_context [of "''unknown_tool''"] by simp
  have n: "map_of PREDEFINED_QUERIES ''unknown_tool'' = None"
    by (simp add: PREDEFINED_QUERIES_def)
  have r1: "lambda_handler svc Map.empty (gateway_context ''gateway___unknown_tool'') =
     (Success_False ''Unknown tool: unknown_tool'', [])"
    using c n by (simp add: lambda_handler_def run_tool_def)
  have c': "tool_name_of (gateway_context ''gateway___get_top_customers'') = Inr ''get_top_customers''"
    using tool_name_of_gateway_context [of "''get_top_customers''"] by simp
  have s: "map_of PREDEFINED_QUERIES ''get_top_customers'' = Some get_top_customers_template"
    by (simp add: PREDEFINED_QUERIES_def)
  have "find (\<lambda>m. Map.empty m = None) (placeholders get_top_customers_template) = Some ''limit''"
    using scans_toD [OF scan_get_top_customers] by simp
  then have "format_kw get_top_customers_template Map.empty = Inl (KeyError ''limit'')"
    by (rule format_kw_first_missing)
  from missing_parameter_response [OF s this c']
  have r2: "lambda_handler svc Map.empty (gateway_context ''gateway___get_top_customers'') =
     (Success_False (''Missing required parameter: '' @ py_repr ''limit''), [])" .
  show ?thesis by (simp add: r1 r2 status_of_def)
qed

text \<open>
  Claim C1, as stated, fails when the fetch raises: the service reports \<^verbatim>\<open>RUNNING\<close> twice and
  \<^verbatim>\<open>SUCCEEDED\<close> on the third status request, \<^verbatim>\<open>get_query_results\<close> raises, and
  \<^verbatim>\<open>execute_athena_query\<close> returns the failure with the exception's text after three status
  requests and one fetch, not a materialized result.
\<close>

theorem raising_fetch_after_success_counterexample:
  "non_terminal (unfetchable_service 3 ''ThrottlingException'') ''exec-1'' 0 \<and>
   non_terminal (unfetchable_service 3 ''ThrottlingException'') ''exec-1'' 1 \<and>
   get_query_execution (unfetchable_service 3 ''ThrottlingException'') 2 ''exec-1'' =
     Inr \<lparr>State = ''SUCCEEDED'', StateChangeReason = None\<rparr> \<and>
   execute_athena_query (unfetchable_service 3 ''ThrottlingException'') ''SELECT 1'' =
     (Query_Failed ''ThrottlingException'',
      Start_Query ''SELECT 1'' # waiting ''exec-1'' 2 @
        [Get_Execution ''exec-1'', Get_Results ''exec-1'' 100])"
proof -
  let ?s = "unfetchable_service 3 ''ThrottlingException''"
  have n0: "non_terminal ?s ''exec-1'' 0" and n1: "non_terminal ?s ''exec-1'' 1"
    by (simp_all add: unfetchable_service_non_terminal)
  have st: "get_query_execution ?s 2 ''exec-1'' =
      Inr \<lparr>State = ''SUCCEEDED'', StateChangeReason = None\<rparr>"
    by simp
  have nt: "\<forall>j<2. non_terminal ?s ''exec-1'' j"
    by (intro allI impI unfetchable_service_non_terminal) simp
  have le: "(2::nat) \<le> max_attempts" and lt: "(2::nat) < max_attempts"
    by (simp_all add: max_attempts_def)
  have su: "State \<lparr>State = ''SUCCEEDED'', StateChangeReason = None\<rparr> = ''SUCCEEDED''"
    by simp
  have "poll ?s ''exec-1'' 0 =
      (Query_Failed ''ThrottlingException'',
       waiting ''exec-1'' 2 @ [Get_Execution ''exec-1'', Get_Results ''exec-1'' 100])"
    by (subst poll_from_start [OF nt le], subst (1 2) poll_succeeded [OF lt st su]) simp
  then have "execute_athena_query ?s ''SELECT 1'' =
     (Query_Failed ''ThrottlingException'',
      Start_Query ''SELECT 1'' # waiting ''exec-1'' 2 @
        [Get_Execution ''exec-1'', Get_Results ''exec-1'' 100])"
    by (simp add: execute_submitted [of ?s _ "''exec-1''"])
  with n0 n1 st show ?thesis by (intro conjI)
qed

text \<open>
  Claim C1, amended. Once the query is submitted: if the service answers the first \<open>k - 1\<close>
  status requests with a non-terminal state and request \<open>k\<close> with \<^verbatim>\<open>SUCCEEDED\<close>, for
  \<open>1 \<le> k \<le> 60\<close>, then \<^verbatim>\<open>execute_athena_query\<close> makes exactly \<open>k\<close> status requests, with a
  sleep of one second after each of the first \<open>k - 1\<close>, and then one fetch. It returns the
  materialized result when the fetch returns a page that materializes, and the failure
  with the exception's text when the fetch or the materialization raises. If the first 60
  status requests all find a non-terminal state, it makes exactly 60 of them, one second
  apart, and returns the timeout error.
\<close>

theorem poll_count_until_success_or_timeout:
  assumes submit: "start_query_execution svc query = Inr qid"
  shows "(\<forall>k status.
            1 \<le> k \<and> k \<le> 60 \<and> (\<forall>j<k - 1. non_terminal svc qid j) \<and>
            get_query_execution svc (k - 1) qid = Inr status \<and>
            State status = ''SUCCEEDED'' \<longrightarrow>
            snd (execute_athena_query svc query) =
              Start_Query query # waiting qid (k - 1) @ [Get_Execution qid, Get_Results qid 100] \<and>
            length (filter is_poll (snd (execute_athena_query svc query))) = k \<and>
            (\<forall>result columns rows.
               get_query_results svc qid 100 = Inr result \<and>
               parse_result result = Inr (columns, rows) \<longrightarrow>
               fst (execute_athena_query svc query) = Query_Ok columns rows (length rows)) \<and>
            (\<forall>result e.
               get_query_results svc qid 100 = Inr result \<and> parse_result result = Inl e \<longrightarrow>
               fst (execute_athena_query svc query) = Query_Failed (str_exc e)) \<and>
            (\<forall>e. get_query_results svc qid 100 = Inl e \<longrightarrow>
               fst (execute_athena_query svc query) = Query_Failed (str_exc e))) \<and>
         ((\<forall>j<60. non_terminal svc qid j) \<longrightarrow>
            execute_athena_query svc query =
              (Query_Failed ''Query timeout - exceeded maximum wait time'',
               Start_Query query # waiting qid 60) \<and>
            length (filter is_poll (snd (execute_athena_query svc query))) = 60)"
proof (intro conjI allI impI)
  fix k status
  assume a: "1 \<le> k \<and> k \<le> 60 \<and> (\<forall>j<k - 1. non_terminal svc qid j) \<and>
            get_query_execution svc (k - 1) qid = Inr status \<and>
            State status = ''SUCCEEDED''"
  define a where "a = k - 1"
  from a have lt: "a < max_attempts" and le: "a \<le> max_attempts" and k: "k = Suc a"
    by (auto simp: max_attempts_def a_def)
  from a have nt: "\<forall>j<a. non_terminal svc qid j"
    and st: "get_query_execution svc a qid = Inr status"
    and su: "State status = ''SUCCEEDED''"
    by (simp_all add: a_def)
  note p = poll_from_start [OF nt le] poll_succeeded [OF lt st su]
  have "snd (execute_athena_query svc query) =
      Start_Query query # waiting qid a @ [Get_Execution qid, Get_Results qid 100]"
    by (simp add: execute_submitted [OF submit] p)
  then show tr: "snd (execute_athena_query svc query) =
      Start_Query query # waiting qid (k - 1) @ [Get_Execution qid, Get_Results qid 100]"
    by (simp add: a_def)
  show "length (filter is_poll (snd (execute_athena_query svc query))) = k"
    by (simp add: tr k)
  fix result columns rows
  assume "get_query_results svc qid 100 = Inr result \<and>
          parse_result result = Inr (columns, rows)"
  then show "fst (execute_athena_query svc query) = Query_Ok columns rows (length rows)"
    by (simp add: execute_submitted [OF submit] p)
next
  fix k status result e
  assume a: "1 \<le> k \<and> k \<le> 60 \<and> (\<forall>j<k - 1. non_terminal svc qid j) \<and>
            get_query_execution svc (k - 1) qid = Inr status \<and>
            State status = ''SUCCEEDED''"
    and f: "get_query_results svc qid 100 = Inr result \<and> parse_result result = Inl e"
  define a where "a = k - 1"
  from a have lt: "a < max_attempts" and le: "a \<le> max_attempts"
    by (auto simp: max_attempts_def a_def)
  from a have nt: "\<forall>j<a. non_terminal svc qid j"
    and st: "get_query_execution svc a qid = Inr status"
    and su: "State status = ''SUCCEEDED''"
    by (simp_all add: a_def)
  note p = poll_from_start [OF nt le] poll_succeeded [OF lt st su]
  from f show "fst (execute_athena_query svc query) = Query_Failed (str_exc e)"
    by (simp add: execute_submitted [OF submit] p)
next
  fix k status e
  assume a: "1 \<le> k \<and> k \<le> 60 \<and> (\<forall>j<k - 1. non_terminal svc qid j) \<and>
            get_query_execution svc (k - 1) qid = Inr status \<and>
            State status = ''SUCCEEDED''"
    and f: "get_query_results svc qid 100 = Inl e"
  define a where "a = k - 1"
  from a have lt: "a < max_attempts" and le: "a \<le> max_attempts"
    by (auto simp: max_attempts_def a_def)
  from a have nt: "\<forall>j<a. non_terminal svc qid j"
    and st: "get_query_execution svc a qid = Inr status"
    and su: "State status = ''SUCCEEDED''"
    by (simp_all add: a_def)
  note p = poll_from_start [OF nt le] poll_succeeded [OF lt st su]
  from f show "fst (execute_athena_query svc query) = Query_Failed (str_exc e)"
    by (simp add: execute_submitted [OF submit] p)
next
  assume "\<forall>j<60. non_terminal svc qid j"
  then have nt: "\<forall>j<max_attempts. non_terminal svc qid j"
    by (simp add: max_attempts_def)
  from poll_from_start [OF nt order_refl]
  have "poll svc qid 0 =
      (Query_Failed ''Query timeout - exceeded maximum wait time'', waiting qid max_attempts)"
    by (simp add: poll_timeout)
  then show e: "execute_athena_query svc query =
      (Query_Failed ''Query timeout - exceeded maximum wait time'',
       Start_Query query # waiting qid 60)"
    by (simp add: execute_submitted [OF submit] max_attempts_def)
  show "length (filter is_poll (snd (execute_athena_query svc query))) = 60"
    by (simp add: e)
qed

theorem poll_count_until_success_or_timeout_witness:
  "execute_athena_query (simulated_service 3 page_ab) ''SELECT 1'' =
     (Query_Ok [''a'', ''b'']
        [[(''a'', ''1''), (''b'', ''2'')], [(''a'', ''3''), (''b'', ''4'')]] 2,
      Start_Query ''SELECT 1'' # waiting ''exec-1'' 2 @
        [Get_Execution ''exec-1'', Get_Results ''exec-1'' 100]) \<and>
   length (filter is_poll (snd (execute_athena_query (simulated_service 3 page_ab) ''SELECT 1''))) = 3 \<and>
   execute_athena_query (simulated_service 61 page_ab) ''SELECT 1'' =
     (Query_Failed ''Query timeout - exceeded maximum wait time'',
      Start_Query ''SELECT 1'' # waiting ''exec-1'' 60) \<and>
   length (filter is_poll (snd (execute_athena_query (simulated_service 61 page_ab) ''SELECT 1''))) = 60 \<and>
   fst (execute_athena_query (unfetchable_service 3 ''ThrottlingException'') ''SELECT 1'') =
     Query_Failed ''ThrottlingException'' \<and>
   fst (execute_athena_query (simulated_service 3 page_ragged) ''SELECT 1'') =
     Query_Failed ''list index out of range''"
proof -
  let ?s3 = "simulated_service 3 page_ab" and ?s61 = "simulated_service 61 page_ab"
  have s3: "start_query_execution ?s3 ''SELECT 1'' = Inr ''exec-1''"
    and s61: "start_query_execution ?s61 ''SELECT 1'' = Inr ''exec-1''"
    by simp_all
  have h3: "1 \<le> (3::nat) \<and> (3::nat) \<le> 60 \<and> (\<forall>j<3 - 1. non_terminal ?s3 ''exec-1'' j) \<and>
      get_query_execution ?s3 (3 - 1) ''exec-1'' =
        Inr \<lparr>State = ''SUCCEEDED'', StateChangeReason = None\<rparr> \<and>
      State \<lparr>State = ''SUCCEEDED'', StateChangeReason = None\<rparr> = ''SUCCEEDED''"
    by (intro conjI allI impI simulated_service_non_terminal) simp_all
  have h61: "\<forall>j<60. non_terminal ?s61 ''exec-1'' j"
    by (intro allI impI simulated_service_non_terminal) simp
  have f: "get_query_results ?s3 ''exec-1'' 100 = Inr page_ab \<and>
      parse_result page_ab =
        Inr ([''a'', ''b''], [[(''a'', ''1''), (''b'', ''2'')], [(''a'', ''3''), (''b'', ''4'')]])"
    by (simp add: parse_page_ab)
  note t3 = poll_count_until_success_or_timeout [OF s3, THEN conjunct1, THEN spec, THEN spec,
      THEN mp, OF h3]
  note t61 = poll_count_until_success_or_timeout [OF s61, THEN conjunct2, THEN mp, OF h61]
  from t3 have a: "snd (execute_athena_query ?s3 ''SELECT 1'') =
      Start_Query ''SELECT 1'' # waiting ''exec-1'' (3 - 1) @
        [Get_Execution ''exec-1'', Get_Results ''exec-1'' 100]"
    by (rule conjunct1)
  from t3 [THEN conjunct2, THEN conjunct1]
  have b: "length (filter is_poll (snd (execute_athena_query ?s3 ''SELECT 1''))) = 3" .
  from t3 [THEN conjunct2, THEN conjunct2, THEN conjunct1, THEN spec, THEN spec, THEN spec,
      THEN mp, OF f]
  have c: "fst (execute_athena_query ?s3 ''SELECT 1'') =
      Query_Ok [''a'', ''b''] [[(''a'', ''1''), (''b'', ''2'')], [(''a'', ''3''), (''b'', ''4'')]] 2"
    by simp
  have "execute_athena_query ?s3 ''SELECT 1'' =
     (Query_Ok [''a'', ''b'']
        [[(''a'', ''1''), (''b'', ''2'')], [(''a'', ''3''), (''b'', ''4'')]] 2,
      Start_Query ''SELECT 1'' # waiting ''exec-1'' 2 @
        [Get_Execution ''exec-1'', Get_Results ''exec-1'' 100])"
    using a c by (simp add: prod_eq_iff)
  moreover
  let ?u = "unfetchable_service 3 ''ThrottlingException''"
  have su: "start_query_execution ?u ''SELECT 1'' = Inr ''exec-1''"
    by simp
  have hu: "1 \<le> (3::nat) \<and> (3::nat) \<le> 60 \<and> (\<forall>j<3 - 1. non_terminal ?u ''exec-1'' j) \<and>
      get_query_execution ?u (3 - 1) ''exec-1'' =
        Inr \<lparr>State = ''SUCCEEDED'', StateChangeReason = None\<rparr> \<and>
      State \<lparr>State = ''SUCCEEDED'', StateChangeReason = None\<rparr> = ''SUCCEEDED''"
    by (intro conjI allI impI unfetchable_service_non_terminal) simp_all
  have fu: "get_query_results ?u ''exec-1'' 100 = Inl (ClientError ''ThrottlingException'')"
    by simp
  from poll_count_until_success_or_timeout [OF su, THEN conjunct1, THEN spec, THEN spec,
      THEN mp, OF hu, THEN conjunct2, THEN conjunct2, THEN conjunct2, THEN conjunct2,
      THEN spec, THEN mp, OF fu]
  have u: "fst (execute_athena_query ?u ''SELECT 1'') = Query_Failed ''ThrottlingException''"
    by simp
  let ?r = "simulated_service 3 page_ragged"
  have sr: "start_query_execution ?r ''SELECT 1'' = Inr ''exec-1''"
    by simp
  have hr: "1 \<le> (3::nat) \<and> (3::nat) \<le> 60 \<and> (\<forall>j<3 - 1. non_terminal ?r ''exec-1'' j) \<and>
      get_query_execution ?r (3 - 1) ''exec-1'' =
        Inr \<lparr>State = ''SUCCEEDED'', StateChangeReason = None\<rparr> \<and>
      State \<lparr>State = ''SUCCEEDED'', StateChangeReason = None\<rparr> = ''SUCCEEDED''"
    by (intro conjI allI impI simulated_service_non_terminal) simp_all
  have fr: "get_query_results ?r ''exec-1'' 100 = Inr page_ragged \<and>
      parse_result page_ragged = Inl (IndexError ''list index out of range'')"
    by (simp add: parse_result_def page_ragged_def var_char_value_def)
  from poll_count_until_success_or_timeout [OF sr, THEN conjunct1, THEN spec, THEN spec,
      THEN mp, OF hr, THEN conjunct2, THEN conjunct2, THEN conjunct2, THEN conjunct1,
      THEN spec, THEN spec, THEN mp, OF fr]
  have r: "fst (execute_athena_query ?r ''SELECT 1'') = Query_Failed ''list index out of range''"
    by simp
  ultimately show ?thesis using b t61 u r by simp
qed

text \<open>
  Claim C7. When the first terminal state that the service reports, on one of the 60
  status requests, is \<^verbatim>\<open>FAILED\<close> or \<^verbatim>\<open>CANCELLED\<close>, \<^verbatim>\<open>execute_athena_query\<close> returns the failure
  with the service's \<^verbatim>\<open>StateChangeReason\<close>, or with \<^verbatim>\<open>Unknown error\<close> when there is none, and
  fetches nothing. When the submission raises, the failure is returned at once with the
  exception's text, after that single call. In every execution the query is submitted
  exactly once and the results are fetched at most once.
\<close>

theorem service_failure_is_reported_without_retry:
  "(\<forall>qid k status.
      start_query_execution svc query = Inr qid \<and>
      1 \<le> k \<and> k \<le> 60 \<and> (\<forall>j<k - 1. non_terminal svc qid j) \<and>
      get_query_execution svc (k - 1) qid = Inr status \<and>
      (State status = ''FAILED'' \<or> State status = ''CANCELLED'') \<longrightarrow>
      execute_athena_query svc query =
        (Query_Failed
           (case StateChangeReason status of None \<Rightarrow> ''Unknown error'' | Some reason \<Rightarrow> reason),
         Start_Query query # waiting qid (k - 1) @ [Get_Execution qid])) \<and>
   (\<forall>e. start_query_execution svc query = Inl e \<longrightarrow>
      execute_athena_query svc query = (Query_Failed (str_exc e), [Start_Query query])) \<and>
   length (filter is_submit (snd (execute_athena_query svc query))) = 1 \<and>
   length (filter is_fetch (snd (execute_athena_query svc query))) \<le> 1"
proof (intro conjI allI impI)
  fix qid k status
  assume a: "start_query_execution svc query = Inr qid \<and>
      1 \<le> k \<and> k \<le> 60 \<and> (\<forall>j<k - 1. non_terminal svc qid j) \<and>
      get_query_execution svc (k - 1) qid = Inr status \<and>
      (State status = ''FAILED'' \<or> State status = ''CANCELLED'')"
  define a where "a = k - 1"
  from a have submit: "start_query_execution svc query = Inr qid" by simp
  from a have lt: "a < max_attempts" and le: "a \<le> max_attempts"
    by (auto simp: max_attempts_def a_def)
  from a have nt: "\<forall>j<a. non_terminal svc qid j"
    and st: "get_query_execution svc a qid = Inr status"
    and fc: "State status = ''FAILED'' \<or> State status = ''CANCELLED''"
    by (simp_all add: a_def)
  note p = poll_from_start [OF nt le] poll_failed [OF lt st fc]
  have "execute_athena_query svc query =
        (Query_Failed
           (case StateChangeReason status of None \<Rightarrow> ''Unknown error'' | Some reason \<Rightarrow> reason),
         Start_Query query # waiting qid a @ [Get_Execution qid])"
    by (simp add: execute_submitted [OF submit] p)
  then show "execute_athena_query svc query =
        (Query_Failed
           (case StateChangeReason status of None \<Rightarrow> ''Unknown error'' | Some reason \<Rightarrow> reason),
         Start_Query query # waiting qid (k - 1) @ [Get_Execution qid])"
    by (simp add: a_def)
next
  fix e
  assume "start_query_execution svc query = Inl e"
  then show "execute_athena_query svc query = (Query_Failed (str_exc e), [Start_Query query])"
    by (simp add: execute_athena_query_def)
next
  show "length (filter is_submit (snd (execute_athena_query svc query))) = 1"
    using execute_calls [of svc query] by (rule conjunct1)
  show "length (filter is_fetch (snd (execute_athena_query svc query))) \<le> 1"
    using execute_calls [of svc query] by (rule conjunct1 [OF conjunct2])
qed

theorem service_failure_is_reported_without_retry_witness:
  "execute_athena_query (failing_service 2 ''FAILED'' (Some ''SYNTAX_ERROR: line 1'')) ''SELECT'' =
     (Query_Failed ''SYNTAX_ERROR: line 1'',
      Start_Query ''SELECT'' # waiting ''exec-1'' 1 @ [Get_Execution ''exec-1'']) \<and>
   execute_athena_query (failing_service 1 ''CANCELLED'' None) ''SELECT'' =
     (Query_Failed ''Unknown error'',
      Start_Query ''SELECT'' # waiting ''exec-1'' 0 @ [Get_Execution ''exec-1'']) \<and>
   execute_athena_query (rejecting_service ''AccessDenied'') ''SELECT'' =
     (Query_Failed ''AccessDenied'', [Start_Query ''SELECT''])"
proof -
  let ?f = "failing_service 2 ''FAILED'' (Some ''SYNTAX_ERROR: line 1'')"
  let ?c = "failing_service 1 ''CANCELLED'' None"
  let ?r = "rejecting_service ''AccessDenied''"
  have hf: "start_query_execution ?f ''SELECT'' = Inr ''exec-1'' \<and>
      1 \<le> (2::nat) \<and> (2::nat) \<le> 60 \<and> (\<forall>j<2 - 1. non_terminal ?f ''exec-1'' j) \<and>
      get_query_execution ?f (2 - 1) ''exec-1'' =
        Inr \<lparr>State = ''FAILED'', StateChangeReason = Some ''SYNTAX_ERROR: line 1''\<rparr> \<and>
      (State \<lparr>State = ''FAILED'', StateChangeReason = Some ''SYNTAX_ERROR: line 1''\<rparr> = ''FAILED'' \<or>
       State \<lparr>State = ''FAILED'', StateChangeReason = Some ''SYNTAX_ERROR: line 1''\<rparr> = ''CANCELLED'')"
    by (intro conjI allI impI failing_service_non_terminal) simp_all
  have hc: "start_query_execution ?c ''SELECT'' = Inr ''exec-1'' \<and>
      1 \<le> (1::nat) \<and> (1::nat) \<le> 60 \<and> (\<forall>j<1 - 1. non_terminal ?c ''exec-1'' j) \<and>
      get_query_execution ?c (1 - 1) ''exec-1'' =
        Inr \<lparr>State = ''CANCELLED'', StateChangeReason = None\<rparr> \<and>
      (State \<lparr>State = ''CANCELLED'', StateChangeReason = None\<rparr> = ''FAILED'' \<or>
       State \<lparr>State = ''CANCELLED'', StateChangeReason = None\<rparr> = ''CANCELLED'')"
    by (intro conjI allI impI failing_service_non_terminal) simp_all
  have hr: "start_query_execution ?r ''SELECT'' = Inl (ClientError ''AccessDenied'')"
    by (simp add: rejecting_service_def)
  note t = service_failure_is_reported_without_retry
  from t [of ?f "''SELECT''", THEN conjunct1, THEN spec, THEN spec, THEN spec, THEN mp, OF hf]
  have r1: "execute_athena_query ?f ''SELECT'' =
     (Query_Failed ''SYNTAX_ERROR: line 1'',
      Start_Query ''SELECT'' # waiting ''exec-1'' 1 @ [Get_Execution ''exec-1''])"
    by simp
  from t [of ?c "''SELECT''", THEN conjunct1, THEN spec, THEN spec, THEN spec, THEN mp, OF hc]
  have r2: "execute_athena_query ?c ''SELECT'' =
     (Query_Failed ''Unknown error'',
      Start_Query ''SELECT'' # waiting ''exec-1'' 0 @ [Get_Execution ''exec-1''])"
    by simp
  from t [of ?r "''SELECT''", THEN conjunct2, THEN conjunct1, THEN spec, THEN mp, OF hr]
  have r3: "execute_athena_query ?r ''SELECT'' =
     (Query_Failed ''AccessDenied'', [Start_Query ''SELECT''])"
    by simp
  from r1 r2 r3 show ?thesis by (intro conjI)
qed

text \<open>
  Claim C9. Every execution fetches results at most once, and only with
  \<^verbatim>\<open>MaxResults=100\<close>. A successful execution fetches exactly once, and materializes one row
  less than the page holds: at most 99 when the service keeps to the 100 rows asked for.
\<close>

theorem single_fetch_of_at_most_100_rows:
  "length (filter is_fetch (snd (execute_athena_query svc query))) \<le> 1 \<and>
   (\<forall>c\<in>set (snd (execute_athena_query svc query)).
      is_fetch c \<longrightarrow> (\<exists>qid. c = Get_Results qid 100)) \<and>
   (\<forall>columns rows n.
      fst (execute_athena_query svc query) = Query_Ok columns rows n \<longrightarrow>
      (\<exists>qid result.
         filter is_fetch (snd (execute_athena_query svc query)) = [Get_Results qid 100] \<and>
         get_query_results svc qid 100 = Inr result \<and>
         length rows = length (Rows result) - 1 \<and>
         (length (Rows result) \<le> 100 \<longrightarrow> length rows \<le> 99)))"
proof (intro conjI allI impI)
  show "length (filter is_fetch (snd (execute_athena_query svc query))) \<le> 1"
    using execute_calls [of svc query] by (rule conjunct1 [OF conjunct2])
  show "\<forall>c\<in>set (snd (execute_athena_query svc query)).
      is_fetch c \<longrightarrow> (\<exists>qid. c = Get_Results qid 100)"
    using execute_calls [of svc query] by (rule conjunct2 [OF conjunct2])
next
  fix columns rows n
  assume "fst (execute_athena_query svc query) = Query_Ok columns rows n"
  from execute_ok [OF this] obtain qid result where
    f: "filter is_fetch (snd (execute_athena_query svc query)) = [Get_Results qid 100]"
    and g: "get_query_results svc qid 100 = Inr result"
    and p: "parse_result result = Inr (columns, rows)"
    by blast
  from parse_result_shape [OF p] have l: "length rows = length (Rows result) - 1"
    by simp
  then have "length (Rows result) \<le> 100 \<longrightarrow> length rows \<le> 99"
    by arith
  with f g l show "\<exists>qid result.
         filter is_fetch (snd (execute_athena_query svc query)) = [Get_Results qid 100] \<and>
         get_query_results svc qid 100 = Inr result \<and>
         length rows = length (Rows result) - 1 \<and>
         (length (Rows result) \<le> 100 \<longrightarrow> length rows \<le> 99)"
    by blast
qed

theorem single_fetch_of_at_most_100_rows_witness:
  "fst (execute_athena_query (simulated_service 1 page_ab) ''SELECT 1'') =
     Query_Ok [''a'', ''b''] [[(''a'', ''1''), (''b'', ''2'')], [(''a'', ''3''), (''b'', ''4'')]] 2 \<and>
   length (Rows page_ab) \<le> 100 \<and>
   (\<exists>qid. filter is_fetch (snd (execute_athena_query (simulated_service 1 page_ab) ''SELECT 1'')) =
        [Get_Results qid 100]) \<and>
   length [[(''a'', ''1''), (''b'', ''2'')], [(''a'', ''3''), (''b'', ''4'')]] \<le> (99 :: nat)"
proof -
  let ?rows = "[[(''a'', ''1''), (''b'', ''2'')], [(''a'', ''3''), (''b'', ''4'')]]"
  have ok: "fst (execute_athena_query (simulated_service 1 page_ab) ''SELECT 1'') =
     Query_Ok [''a'', ''b''] ?rows 2"
    by (subst execute_simulated_page_ab) (rule fst_conv)
  have l: "length (Rows page_ab) \<le> 100"
    by (simp add: page_ab_def)
  from single_fetch_of_at_most_100_rows
     [of "simulated_service 1 page_ab" "''SELECT 1''", THEN conjunct2, THEN conjunct2,
      THEN spec, THEN spec, THEN spec, THEN mp, OF ok]
  obtain qid result where
    f: "filter is_fetch (snd (execute_athena_query (simulated_service 1 page_ab) ''SELECT 1'')) =
        [Get_Results qid 100]"
    and g: "get_query_results (simulated_service 1 page_ab) qid 100 = Inr result"
    and b: "length (Rows result) \<le> 100 \<longrightarrow> length ?rows \<le> 99"
    by blast
  from g have "result = page_ab" by simp
  with b l have "length ?rows \<le> 99" by blast
  with ok l f show ?thesis by blast
qed

text \<open>
  Claim C2, as stated, fails at two pages: a data row with fewer cells than there are
  column labels raises \<^verbatim>\<open>IndexError\<close>, which the coordinator turns into the failure
  \<^verbatim>\<open>list index out of range\<close>, so no row is produced; and two columns with the same label
  give a row with one key, holding the value of the later column.
\<close>

theorem materialization_fails_on_short_row_counterexample:
  "parse_result page_ragged = Inl (IndexError ''list index out of range'') \<and>
   execute_athena_query (simulated_service 1 page_ragged) ''SELECT 1'' =
     (Query_Failed ''list index out of range'',
      [Start_Query ''SELECT 1'', Get_Execution ''exec-1'', Get_Results ''exec-1'' 100]) \<and>
   parse_result page_same_label = Inr ([''a'', ''a''], [[(''a'', ''2'')]])"
proof -
  have 1: "parse_result page_ragged = Inl (IndexError ''list index out of range'')"
    by (simp add: parse_result_def page_ragged_def var_char_value_def)
  have 2: "execute_athena_query (simulated_service 1 page_ragged) ''SELECT 1'' =
     (Query_Failed ''list index out of range'',
      [Start_Query ''SELECT 1'', Get_Execution ''exec-1'', Get_Results ''exec-1'' 100])"
    by (simp add: execute_athena_query_def poll.simps [of _ _ 0] max_attempts_def 1)
  have 3: "parse_result page_same_label = Inr ([''a'', ''a''], [[(''a'', ''2'')]])"
    by (simp add: parse_result_def page_same_label_def var_char_value_def)
  from 1 2 3 show ?thesis by (intro conjI)
qed

text \<open>
  Claim C2, amended. When every data row has at least as many cells as there are column
  labels, materialization drops the first row and yields one output row for each other
  row. The keys of each output row are the column labels in order of first occurrence:
  the label sequence itself when the labels are distinct, and then the row pairs each
  label with its cell's value. A cell without a value gives the empty string under its
  label, for the last column that carries that label. When some data row is shorter than
  the label sequence, materialization raises \<^verbatim>\<open>IndexError\<close> instead.
\<close>

theorem materialization_of_rectangular_results:
  "((\<forall>row\<in>set (drop 1 (Rows result)). length (ColumnInfo result) \<le> length row) \<longrightarrow>
      (\<exists>rows. parse_result result = Inr (ColumnInfo result, rows) \<and>
         length rows = length (Rows result) - 1 \<and>
         (\<forall>i<length rows.
            map fst (rows ! i) = rev (remdups (rev (ColumnInfo result))) \<and>
            (\<forall>j<length (ColumnInfo result).
               ColumnInfo result ! j \<notin> set (drop (Suc j) (ColumnInfo result)) \<longrightarrow>
               map_of (rows ! i) (ColumnInfo result ! j) =
                 Some (var_char_value (Rows result ! Suc i ! j)) \<and>
               (Rows result ! Suc i ! j = None \<longrightarrow>
                  map_of (rows ! i) (ColumnInfo result ! j) = Some []))) \<and>
         (distinct (ColumnInfo result) \<longrightarrow>
            rows = map (\<lambda>row. zip (ColumnInfo result) (map var_char_value row))
                     (drop 1 (Rows result))))) \<and>
   ((\<exists>row\<in>set (drop 1 (Rows result)). length row < length (ColumnInfo result)) \<longrightarrow>
      parse_result result = Inl (IndexError ''list index out of range''))"
proof (intro conjI impI)
  let ?cols = "ColumnInfo result" and ?rs = "drop 1 (Rows result)"
  assume wide: "\<forall>row\<in>set ?rs. length ?cols \<le> length row"
  from parse_rows_ok [OF wide] obtain rows where rows: "parse_rows ?cols ?rs = Inr rows" ..
  from parse_rows_nth [OF rows] have len: "length rows = length ?rs"
    and nth: "\<And>i. i < length ?rs \<Longrightarrow> fill_row (enumerate 0 ?cols) (?rs ! i) [] = Inr (rows ! i)"
    by simp_all
  have pr: "parse_result result = Inr (?cols, rows)"
    using rows by (simp add: parse_result_def)
  have l: "length rows = length (Rows result) - 1"
    using len by simp
  have each: "map fst (rows ! i) = rev (remdups (rev ?cols)) \<and>
            (\<forall>j<length ?cols. ?cols ! j \<notin> set (drop (Suc j) ?cols) \<longrightarrow>
               map_of (rows ! i) (?cols ! j) = Some (var_char_value (Rows result ! Suc i ! j)) \<and>
               (Rows result ! Suc i ! j = None \<longrightarrow> map_of (rows ! i) (?cols ! j) = Some []))"
    if i: "i < length rows" for i
  proof -
    from i len have i': "i < length ?rs" by simp
    then have row: "?rs ! i = Rows result ! Suc i" by simp
    note f = nth [OF i']
    from fill_row_keys [OF _ f] have k: "map fst (rows ! i) = rev (remdups (rev ?cols))"
      by simp
    have "map_of (rows ! i) (?cols ! j) = Some (var_char_value (Rows result ! Suc i ! j)) \<and>
          (Rows result ! Suc i ! j = None \<longrightarrow> map_of (rows ! i) (?cols ! j) = Some [])"
      if "j < length ?cols" "?cols ! j \<notin> set (drop (Suc j) ?cols)" for j
    proof -
      have a: "map_of (rows ! i) (?cols ! j) = Some (var_char_value (Rows result ! Suc i ! j))"
        using fill_row_value [OF f that] row by simp
      show ?thesis
      proof (intro conjI impI)
        show "map_of (rows ! i) (?cols ! j) = Some (var_char_value (Rows result ! Suc i ! j))"
          by (rule a)
      next
        assume "Rows result ! Suc i ! j = None"
        with a show "map_of (rows ! i) (?cols ! j) = Some []"
          by (simp add: var_char_value_def)
      qed
    qed
    with k show ?thesis by blast
  qed
  have dist: "rows = map (\<lambda>row. zip ?cols (map var_char_value row)) ?rs"
    if d: "distinct ?cols"
  proof (rule nth_equalityI)
    show "length rows = length (map (\<lambda>row. zip ?cols (map var_char_value row)) ?rs)"
      using len by simp
  next
    fix i
    assume "i < length rows"
    with len have i': "i < length ?rs" by simp
    from fill_row_distinct [OF nth [OF i'] d] i'
    show "rows ! i = map (\<lambda>row. zip ?cols (map var_char_value row)) ?rs ! i"
      by simp
  qed
  have each': "\<forall>i<length rows.
            map fst (rows ! i) = rev (remdups (rev ?cols)) \<and>
            (\<forall>j<length ?cols.
               ?cols ! j \<notin> set (drop (Suc j) ?cols) \<longrightarrow>
               map_of (rows ! i) (?cols ! j) =
                 Some (var_char_value (Rows result ! Suc i ! j)) \<and>
               (Rows result ! Suc i ! j = None \<longrightarrow>
                  map_of (rows ! i) (?cols ! j) = Some []))"
    using each by blast
  have dist': "distinct ?cols \<longrightarrow>
            rows = map (\<lambda>row. zip ?cols (map var_char_value row)) ?rs"
    using dist by blast
  show "\<exists>rows. parse_result result = Inr (?cols, rows) \<and>
         length rows = length (Rows result) - 1 \<and>
         (\<forall>i<length rows.
            map fst (rows ! i) = rev (remdups (rev ?cols)) \<and>
            (\<forall>j<length ?cols.
               ?cols ! j \<notin> set (drop (Suc j) ?cols) \<longrightarrow>
               map_of (rows ! i) (?cols ! j) =
                 Some (var_char_value (Rows result ! Suc i ! j)) \<and>
               (Rows result ! Suc i ! j = None \<longrightarrow>
                  map_of (rows ! i) (?cols ! j) = Some []))) \<and>
         (distinct ?cols \<longrightarrow>
            rows = map (\<lambda>row. zip ?cols (map var_char_value row)) ?rs)"
    using pr l each' dist' by (intro exI [of _ rows] conjI) assumption+
next
  assume "\<exists>row\<in>set (drop 1 (Rows result)). length row < length (ColumnInfo result)"
  from parse_rows_ragged [OF this]
  show "parse_result result = Inl (IndexError ''list index out of range'')"
    by (simp add: parse_result_def)
qed

theorem materialization_of_rectangular_results_witness:
  "parse_result page_ab =
     Inr ([''a'', ''b''], [[(''a'', ''1''), (''b'', ''2'')], [(''a'', ''3''), (''b'', ''4'')]]) \<and>
   parse_result page_ragged = Inl (IndexError ''list index out of range'')"
proof -
  have w: "\<forall>row\<in>set (drop 1 (Rows page_ab)). length (ColumnInfo page_ab) \<le> length row"
    by (simp add: page_ab_def)
  have d: "distinct (ColumnInfo page_ab)"
    by (simp add: page_ab_def)
  have g: "\<exists>row\<in>set (drop 1 (Rows page_ragged)). length row < length (ColumnInfo page_ragged)"
    by (simp add: page_ragged_def)
  from materialization_of_rectangular_results [of page_ab, THEN conjunct1, THEN mp, OF w] d
  have "parse_result page_ab =
      Inr (ColumnInfo page_ab,
           map (\<lambda>row. zip (ColumnInfo page_ab) (map var_char_value row)) (drop 1 (Rows page_ab)))"
    by auto
  then have 1: "parse_result page_ab =
     Inr ([''a'', ''b''], [[(''a'', ''1''), (''b'', ''2'')], [(''a'', ''3''), (''b'', ''4'')]])"
    by (simp add: page_ab_def var_char_value_def)
  from materialization_of_rectangular_results [of page_ragged, THEN conjunct2, THEN mp, OF g]
  have 2: "parse_result page_ragged = Inl (IndexError ''list index out of range'')" .
  from 1 2 show ?thesis by (rule conjI)
qed

text \<open>
  Claim C8. Every success envelope that the handler returns carries the column labels of
  the fetched page and a \<^verbatim>\<open>row_count\<close> equal to the number of rows in \<^verbatim>\<open>data\<close>, one less than
  the page holds; and a successful execution is always returned as such an envelope. In
  particular \<^verbatim>\<open>get_inventory_status\<close> with \<^verbatim>\<open>warehouse_id = WH001\<close>, on a service that succeeds
  at the first status request and serves a header and one data row, gives
  \<^verbatim>\<open>row_count = 1\<close>.
\<close>

theorem success_envelope_reports_columns_and_row_count:
  "(\<forall>data columns n.
      fst (lambda_handler svc event ctx) = Status_Success data columns n \<longrightarrow>
      n = length data \<and>
      (\<exists>qid result. get_query_results svc qid 100 = Inr result \<and>
         columns = ColumnInfo result \<and> length data = length (Rows result) - 1)) \<and>
   (\<forall>tool_name t query columns rows n calls.
      tool_name_of ctx = Inr tool_name \<and> map_of PREDEFINED_QUERIES tool_name = Some t \<and>
      format_kw t event = Inr query \<and>
      execute_athena_query svc query = (Query_Ok columns rows n, calls) \<longrightarrow>
      lambda_handler svc event ctx = (Status_Success rows columns n, calls)) \<and>
   (\<forall>columns header row.
      tool_name_of ctx = Inr ''get_inventory_status'' \<and>
      (\<forall>query. \<exists>qid status.
         start_query_execution svc query = Inr qid \<and>
         get_query_execution svc 0 qid = Inr status \<and> State status = ''SUCCEEDED'' \<and>
         get_query_results svc qid 100 = Inr \<lparr>ColumnInfo = columns, Rows = [header, row]\<rparr>) \<and>
      length columns \<le> length row \<longrightarrow>
      (\<exists>data calls.
         lambda_handler svc [''warehouse_id'' \<mapsto> ''WH001''] ctx =
           (Status_Success data columns 1, calls) \<and> length data = 1))"
proof (intro conjI allI impI)
  fix data columns n
  assume s: "fst (lambda_handler svc event ctx) = Status_Success data columns n"
  from lambda_handler_success [OF s] obtain tool_name where
    "fst (run_tool svc event tool_name) = Status_Success data columns n" by blast
  from run_tool_success [OF this] obtain query where
    "fst (execute_athena_query svc query) = Query_Ok columns data n" by blast
  from execute_ok [OF this] obtain qid result where
    g: "get_query_results svc qid 100 = Inr result"
    and p: "parse_result result = Inr (columns, data)" and n: "n = length data"
    by blast
  from n show "n = length data" .
  from parse_result_shape [OF p] g
  show "\<exists>qid result. get_query_results svc qid 100 = Inr result \<and>
         columns = ColumnInfo result \<and> length data = length (Rows result) - 1"
    by blast
next
  fix tool_name t query columns rows n calls
  assume "tool_name_of ctx = Inr tool_name \<and> map_of PREDEFINED_QUERIES tool_name = Some t \<and>
      format_kw t event = Inr query \<and>
      execute_athena_query svc query = (Query_Ok columns rows n, calls)"
  then show "lambda_handler svc event ctx = (Status_Success rows columns n, calls)"
    by (simp add: lambda_handler_def run_tool_def)
next
  fix columns header row
  let ?event = "[''warehouse_id'' \<mapsto> ''WH001'']"
  let ?page = "\<lparr>ColumnInfo = columns, Rows = [header, row]\<rparr>"
  assume a: "tool_name_of ctx = Inr ''get_inventory_status'' \<and>
      (\<forall>query. \<exists>qid status.
         start_query_execution svc query = Inr qid \<and>
         get_query_execution svc 0 qid = Inr status \<and> State status = ''SUCCEEDED'' \<and>
         get_query_results svc qid 100 = Inr ?page) \<and>
      length columns \<le> length row"
  have s: "map_of PREDEFINED_QUERIES ''get_inventory_status'' = Some get_inventory_status_template"
    by (simp add: PREDEFINED_QUERIES_def)
  have p: "placeholders get_inventory_status_template = [''warehouse_id'']"
    and e: "snd (markup get_inventory_status_template) = None"
    using scans_toD [OF scan_get_inventory_status] by simp_all
  have "\<forall>n\<in>set (fields_of (fst (markup get_inventory_status_template))). ?event n \<noteq> None"
    using p by (simp add: placeholders_def)
  from render_all_bound [OF this] obtain query where
    r: "render (fst (markup get_inventory_status_template)) None ?event = Inr query" ..
  have q: "format_kw get_inventory_status_template ?event = Inr query"
    unfolding format_kw_render e by (rule r)
  from a obtain qid status where
    sub: "start_query_execution svc query = Inr qid"
    and st: "get_query_execution svc 0 qid = Inr status" and su: "State status = ''SUCCEEDED''"
    and g: "get_query_results svc qid 100 = Inr ?page"
    by blast
  from a have "\<forall>r\<in>set (drop 1 (Rows ?page)). length (ColumnInfo ?page) \<le> length r"
    by simp
  from parse_rows_ok [OF this] obtain data where
    d: "parse_rows columns [row] = Inr data" by auto
  from parse_rows_length [OF d] have l: "length data = 1" by simp
  from d have pr: "parse_result ?page = Inr (columns, data)"
    by (simp add: parse_result_def)
  from immediate_success [OF sub st su g pr] l
  have "execute_athena_query svc query =
      (Query_Ok columns data 1, [Start_Query query, Get_Execution qid, Get_Results qid 100])"
    by simp
  with a s q have "lambda_handler svc ?event ctx =
      (Status_Success data columns 1, [Start_Query query, Get_Execution qid, Get_Results qid 100])"
    by (simp add: lambda_handler_def run_tool_def)
  with l show "\<exists>data calls.
         lambda_handler svc ?event ctx = (Status_Success data columns 1, calls) \<and> length data = 1"
    by blast
qed

theorem success_envelope_reports_columns_and_row_count_witness:
  "tool_name_of (gateway_context ''gateway___get_inventory_status'') =
     Inr ''get_inventory_status'' \<and>
   length inventory_columns \<le>
     length [Some ''P-17'', Some ''Widget'', Some ''3'', Some ''10'', Some ''LOW''] \<and>
   (\<exists>data calls.
      lambda_handler (simulated_service 1 inventory_page) [''warehouse_id'' \<mapsto> ''WH001'']
          (gateway_context ''gateway___get_inventory_status'') =
        (Status_Success data inventory_columns 1, calls) \<and>
      length data = 1)"
proof -
  let ?svc = "simulated_service 1 inventory_page"
  let ?ctx = "gateway_context ''gateway___get_inventory_status''"
  let ?row = "[Some ''P-17'', Some ''Widget'', Some ''3'', Some ''10'', Some ''LOW'']"
  have c: "tool_name_of ?ctx = Inr ''get_inventory_status''"
    using tool_name_of_gateway_context [of "''get_inventory_status''"] by simp
  have l: "length inventory_columns \<le> length ?row"
    by (simp add: inventory_columns_def)
  have s: "\<forall>query. \<exists>qid status.
         start_query_execution ?svc query = Inr qid \<and>
         get_query_execution ?svc 0 qid = Inr status \<and> State status = ''SUCCEEDED'' \<and>
         get_query_results ?svc qid 100 =
           Inr \<lparr>ColumnInfo = inventory_columns, Rows = [map Some inventory_columns, ?row]\<rparr>"
    by (simp add: inventory_page_def)
  from c s l have h: "tool_name_of ?ctx = Inr ''get_inventory_status'' \<and>
      (\<forall>query. \<exists>qid status.
         start_query_execution ?svc query = Inr qid \<and>
         get_query_execution ?svc 0 qid = Inr status \<and> State status = ''SUCCEEDED'' \<and>
         get_query_results ?svc qid 100 =
           Inr \<lparr>ColumnInfo = inventory_columns, Rows = [map Some inventory_columns, ?row]\<rparr>) \<and>
      length inventory_columns \<le> length ?row"
    by (intro conjI)
  from success_envelope_reports_columns_and_row_count
     [of ?svc _ ?ctx, THEN conjunct2, THEN conjunct2, THEN spec, THEN spec, THEN spec,
      THEN mp, OF h]
  have "\<exists>data calls.
      lambda_handler ?svc [''warehouse_id'' \<mapsto> ''WH001''] ?ctx =
        (Status_Success data inventory_columns 1, calls) \<and> length data = 1" .
  with c l show ?thesis by (intro conjI)
qed

end
